theory Spec2Isabelle
  imports Main "HOL-Library.Word" "HOL-Library.AList"
begin

unbundle bit_operations_syntax

section \<open>Wire data of \<open>node/conn.go\<close>\<close>

text \<open>
  The connection of a CXO node (\<open>src/node/conn.go\<close>) frames every message as
  \<open>[ 4 seq ][ 4 rseq ][ encoded message ]\<close>.  Sequence numbers are Go \<open>uint32\<close>
  values, frames are byte slices.  Public keys and hashes (\<open>cipher.PubKey\<close>,
  \<open>cipher.SHA256\<close>) are fixed-size byte arrays of an external library; they are
  byte lists here, the blank key being the all-zero array.
\<close>

type_synonym byte = "8 word"
type_synonym uint32 = "32 word"
type_synonym PubKey = "byte list"
type_synonym SHA256 = "byte list"

definition blank_PubKey :: PubKey where
  "blank_PubKey = replicate 33 0"

text \<open>
  Go errors.  The sentinel errors are compared by identity in the source
  (\<open>switch err { case data.ErrNoSuchFeed: ... }\<close>), so each one is a constructor
  of its own; \<open>errors_New\<close> is \<open>errors.New\<close> (and \<open>fmt.Errorf\<close>).
\<close>

datatype error =
    ErrTimeout
  | ErrClosed
  | ErrNotPublic
  | ErrNoSuchFeed
  | ErrNoSuchHead
  | ErrNotFound
  | errors_New string

text \<open>
  \<open>err.Error()\<close>.  \<open>ErrTimeout\<close> is declared in the source as
  \<open>errors.New("timeout")\<close>.  The other sentinels are declared outside the
  files at hand: their texts are taken from the doc comment of \<open>RemoteFeeds\<close>
  (\<open>"not a public server"\<close>), from \<open>ErrConnClsoed\<close> and from the names of the
  \<open>data\<close> package's errors.
\<close>

fun Error :: "error \<Rightarrow> string" where
  "Error ErrTimeout = ''timeout''"
| "Error ErrClosed = ''connection closed''"
| "Error ErrNotPublic = ''not a public server''"
| "Error ErrNoSuchFeed = ''no such feed''"
| "Error ErrNoSuchHead = ''no such head''"
| "Error ErrNotFound = ''not found''"
| "Error (errors_New s) = s"

text \<open>
  The messages of package \<open>msg\<close>, as \<open>conn.go\<close> builds and matches them:
  a closed tagged union.  \<open>Root\<close> carries feed, nonce, seq, the encoded value and
  the signature; \<open>OtherMsg\<close> stands for every message type that \<open>handle\<close> has no
  case for (pings, handshake messages).
\<close>

record RootMsg =
  Feed :: PubKey
  Nonce :: nat
  Seq :: nat
  Value :: "byte list"
  Sig :: "byte list"

datatype Msg =
    Sub PubKey
  | Unsub PubKey
  | RqList
  | List "PubKey list"
  | Root RootMsg
  | RqObject SHA256
  | Object "byte list"
  | RqPreview PubKey
  | Ok
  | Err string
  | OtherMsg nat

section \<open>Message codec\<close>

text \<open>
  \<open>binary.LittleEndian.PutUint32(b, v)\<close> writes the four bytes of \<open>v\<close> into
  \<open>b[0..3]\<close> and panics on a shorter slice; \<open>binary.LittleEndian.Uint32(b)\<close>
  reads them back.  The callers below only pass slices of four bytes or more, the
  model returns \<open>None\<close> for the panic.
\<close>

definition PutUint32 :: "byte list \<Rightarrow> uint32 \<Rightarrow> byte list option" where
  "PutUint32 b v =
     (if length b < 4 then None
      else Some (b[0 := ucast v,
                   1 := ucast (drop_bit 8 v),
                   2 := ucast (drop_bit 16 v),
                   3 := ucast (drop_bit 24 v)]))"

definition Uint32 :: "byte list \<Rightarrow> uint32 option" where
  "Uint32 b =
     (if length b < 4 then None
      else Some (ucast (b ! 0)
                 OR push_bit 8 (ucast (b ! 1))
                 OR push_bit 16 (ucast (b ! 2))
                 OR push_bit 24 (ucast (b ! 3))))"

text \<open>
  \<open>encodeMsg\<close>: \<open>raw = make([]byte, 8, 8+len(em))\<close>, then
  \<open>PutUint32(raw, seq)\<close> and \<open>PutUint32(raw[:4], rseq)\<close>, then the encoded
  message is appended.  \<open>raw[:4]\<close> is the prefix of \<open>raw\<close> and shares its
  storage, so the second write lands on bytes 0..3 again.  The encoder of the
  message body (\<open>m.Encode()\<close>, package \<open>msg\<close>) is the parameter \<open>enc\<close>.
\<close>

definition encodeMsg :: "(Msg \<Rightarrow> byte list) \<Rightarrow> uint32 \<Rightarrow> uint32 \<Rightarrow> Msg \<Rightarrow> byte list" where
  "encodeMsg enc seq rseq m =
     (let em = enc m;
          raw = replicate 8 0;
          raw = the (PutUint32 raw seq);
          raw = the (PutUint32 (take 4 raw) rseq) @ drop 4 raw
      in raw @ em)"

text \<open>
  \<open>decodeRaw\<close>: a frame under 9 bytes is an error; otherwise seq is read from
  bytes 0..3, rseq from bytes 4..7 and the rest goes to \<open>msg.Decode\<close>
  (the parameter \<open>dec\<close>).
\<close>

definition decodeRaw ::
  "(byte list \<Rightarrow> error + Msg) \<Rightarrow> byte list \<Rightarrow> error + (uint32 \<times> uint32 \<times> Msg)" where
  "decodeRaw dec raw =
     (if length raw < 9 then Inl (errors_New ''invlaid messege received: too short'')
      else
        let seq = the (Uint32 raw);
            raw = drop 4 raw;
            rseq = the (Uint32 raw);
            raw = drop 4 raw
        in case dec raw of
             Inl err \<Rightarrow> Inl err
           | Inr m \<Rightarrow> Inr (seq, rseq, m))"

section \<open>Connection and node state\<close>

text \<open>
  A \<open>*Conn\<close> is identified by a number; so is a reply channel made by
  \<open>sendRequest\<close>.  A \<open>registry.Root\<close> is the descriptor the Container hands
  back: publisher, head nonce, seq, signature, and whether every referenced object
  is present.
\<close>

type_synonym conn = nat
type_synonym chan = nat

record registry_Root =
  r_Pub :: PubKey
  r_Nonce :: nat
  r_Seq :: nat
  r_Sig :: "byte list"
  r_IsFull :: bool

text \<open>
  The handlers of \<open>conn.go\<close> work on one connection \<open>c\<close>, on its node \<open>c.n\<close>
  and on the node's Container \<open>c.n.c\<close>.  The state puts the three side by side:
  \<^item> fields \<open>c_\<close>: the \<open>Conn\<close> struct.  \<open>c_closeq\<close> says that the channel
    \<open>closeq\<close> has been closed, \<open>c_closeo\<close> that the \<open>sync.Once\<close> has been
    entered and \<open>c_closeo_done\<close> that its function has returned, \<open>c_await\<close>
    is the counter of the \<open>sync.WaitGroup\<close>, \<open>c_chans\<close> counts the reply
    channels made, \<open>c_receiving\<close> says that the goroutine \<open>receiving\<close> runs, \<open>c_tasks\<close> lists
    the spawned \<open>handleRqObject\<close> goroutines that have not run yet, \<open>c_sendq\<close>
    the frames put on \<open>sendq\<close>, \<open>c_Closed\<close> that \<open>Connection.Close()\<close> of the
    transport was called;
  \<^item> fields \<open>n_\<close>: the \<open>Node\<close> struct and its configuration.  Go maps are
    association lists (a map has no duplicate keys; its iteration order is
    unspecified in Go, the list order stands for it).  \<open>n_disconnects\<close> records
    the calls of the application callback \<open>onDisconnect\<close>, \<open>n_filling\<close> the
    Roots handed to the filler;
  \<^item> fields \<open>ct_\<close>: the Container, see below.
\<close>

record state =
  self :: conn
  c_seq :: uint32
  c_reqs :: "uint32 \<rightharpoonup> chan"
  c_chans :: nat
  c_sendq :: "byte list list"
  c_closeq :: bool
  c_closeo :: bool
  c_closeo_done :: bool
  c_Closed :: bool
  c_await :: nat
  c_receiving :: bool
  c_tasks :: "(uint32 \<times> SHA256) list"
  n_Public :: bool
  n_ResponseTimeout :: nat
  n_feeds :: "(PubKey \<times> conn set) list"
  n_feedsl :: "PubKey list"
  n_conns :: "conn list"
  n_connsl :: "conn list"
  n_wos :: "(SHA256 \<times> conn set) list"
  n_disconnects :: "(conn \<times> error option) list"
  n_filling :: "(conn \<times> registry_Root) list"
  ct_feeds :: "PubKey list"
  ct_roots :: "registry_Root list"
  ct_active :: "PubKey \<Rightarrow> nat"
  ct_objects :: "SHA256 \<rightharpoonup> byte list"
  ct_wants :: "(SHA256 \<times> uint32) list"

text \<open>
  What lies outside the repository's files and is not specified: the message
  encoder and decoder of package \<open>msg\<close>, the hash function, the encoding of a
  Root, the signature check inside \<open>Container.ReceivedRoot\<close>, and the
  application's callback \<open>onSubscribeRemote\<close> (which may change the node: the
  source notes that it can subscribe the node to the feed).  One more input
  stands for the scheduler: when both cases of the \<open>select\<close> in \<open>sendRaw\<close>
  are ready, Go picks one at random; \<open>SelectSend\<close> says, for the state and
  the frame, whether the send is picked.
\<close>

record Env =
  Encode :: "Msg \<Rightarrow> byte list"
  Decode :: "byte list \<Rightarrow> error + Msg"
  SumSHA256 :: "byte list \<Rightarrow> SHA256"
  EncodeRoot :: "registry_Root \<Rightarrow> byte list"
  VerifyRoot :: "byte list \<Rightarrow> byte list \<Rightarrow> error + registry_Root"
  onSubscribeRemote :: "conn \<Rightarrow> PubKey \<Rightarrow> state \<Rightarrow> state \<times> error option"
  SelectSend :: "state \<Rightarrow> byte list \<Rightarrow> bool"

section \<open>The node's registries\<close>

text \<open>\<open>Node.Feeds\<close>: the copy-on-write list is returned when it is not empty,
  rebuilt from the keys of \<open>feeds\<close> otherwise.\<close>

definition Feeds :: "state \<Rightarrow> state \<times> PubKey list" where
  "Feeds s =
     (if length (n_feedsl s) \<noteq> 0 then (s, n_feedsl s)
      else let l = map fst (n_feeds s) in (s\<lparr>n_feedsl := l\<rparr>, l))"

definition HasFeed :: "state \<Rightarrow> PubKey \<Rightarrow> bool" where
  "HasFeed s pk = (map_of (n_feeds s) pk \<noteq> None)"

definition addConnToFeed :: "state \<Rightarrow> conn \<Rightarrow> PubKey \<Rightarrow> state \<times> bool" where
  "addConnToFeed s c pk =
     (case map_of (n_feeds s) pk of
        Some cs \<Rightarrow> (s\<lparr>n_feeds := AList.update pk (insert c cs) (n_feeds s)\<rparr>, True)
      | None \<Rightarrow> (s, False))"

definition delConnFromFeed :: "state \<Rightarrow> conn \<Rightarrow> PubKey \<Rightarrow> state \<times> bool" where
  "delConnFromFeed s c pk =
     (case map_of (n_feeds s) pk of
        Some cs \<Rightarrow>
          if c \<in> cs then (s\<lparr>n_feeds := AList.update pk (cs - {c}) (n_feeds s)\<rparr>, True)
          else (s, False)
      | None \<Rightarrow> (s, False))"

text \<open>Modelled from the spec: \<open>Container.AddFeed\<close> is not among the sources.
  Spec 6: it "manages stored feeds".  The feed is added to the Container's feeds
  and no error is reported.\<close>

definition so_AddFeed :: "state \<Rightarrow> PubKey \<Rightarrow> state \<times> error option" where
  "so_AddFeed s pk = (s\<lparr>ct_feeds := List.insert pk (ct_feeds s)\<rparr>, None)"

text \<open>Modelled from the spec: \<open>Container.DelFeed\<close> is not among the sources.
  Spec 6: it "manages stored feeds".  The feed is removed from the Container's
  feeds and no error is reported.\<close>

definition so_DelFeed :: "state \<Rightarrow> PubKey \<Rightarrow> state \<times> error option" where
  "so_DelFeed s pk = (s\<lparr>ct_feeds := removeAll pk (ct_feeds s)\<rparr>, None)"

text \<open>\<open>Node.AddFeed\<close> and \<open>Node.delFeed\<close>; both clear the copy-on-write list.
  (The service-discovery update they trigger is outside the model.)\<close>

definition AddFeed :: "state \<Rightarrow> PubKey \<Rightarrow> state \<times> error option" where
  "AddFeed s pk =
     (if map_of (n_feeds s) pk = None then
        (case so_AddFeed s pk of
           (s, Some err) \<Rightarrow> (s, Some err)
         | (s, None) \<Rightarrow>
             (s\<lparr>n_feeds := AList.update pk {} (n_feeds s), n_feedsl := []\<rparr>, None))
      else (s, None))"

definition delFeed :: "state \<Rightarrow> PubKey \<Rightarrow> state \<times> bool" where
  "delFeed s pk =
     (if map_of (n_feeds s) pk \<noteq> None then
        (s\<lparr>n_feeds := AList.delete pk (n_feeds s), n_feedsl := []\<rparr>, True)
      else (s, False))"

text \<open>\<open>Node.delConn\<close>: the first occurrence of \<open>c\<close> in \<open>conns\<close> is overwritten
  by the last element and the slice is cut by one.\<close>

definition delConn :: "state \<Rightarrow> conn \<Rightarrow> state" where
  "delConn s c =
     (let s = s\<lparr>n_connsl := []\<rparr>;
          i = length (takeWhile (\<lambda>x. x \<noteq> c) (n_conns s))
      in if i < length (n_conns s)
         then s\<lparr>n_conns := butlast ((n_conns s)[i := last (n_conns s)])\<rparr>
         else s)"

text \<open>\<open>Node.wantObejct\<close> and \<open>Node.delConnFromWantedObjects\<close>.\<close>

definition wantObejct :: "state \<Rightarrow> SHA256 \<Rightarrow> conn \<Rightarrow> state" where
  "wantObejct s key c =
     (case map_of (n_wos s) key of
        Some cs \<Rightarrow> s\<lparr>n_wos := AList.update key (insert c cs) (n_wos s)\<rparr>
      | None \<Rightarrow> s\<lparr>n_wos := AList.update key {c} (n_wos s)\<rparr>)"

definition delConnFromWantedObjects :: "state \<Rightarrow> conn \<Rightarrow> state" where
  "delConnFromWantedObjects s c =
     s\<lparr>n_wos := map (\<lambda>(key, cs). (key, cs - {c})) (n_wos s)\<rparr>"

subsection \<open>The registry behind \<open>c.n.fs\<close>\<close>

text \<open>
  \<open>conn.go\<close> reaches the feeds through \<open>c.n.fs\<close> and through a few more
  methods of the node that are not among the sources.  Each is modelled from the
  spec, on the \<open>feeds\<close> map and the functions of \<open>Node\<close> above.
\<close>

text \<open>Modelled from the spec: \<open>fs.hasFeed\<close> is not among the sources.  Spec 4.3:
  \<open>HasFeed(f)\<close> is a read accessor of the shared feeds; it is \<open>Node.HasFeed\<close>.\<close>

definition fs_hasFeed :: "state \<Rightarrow> PubKey \<Rightarrow> bool" where
  "fs_hasFeed s pk = HasFeed s pk"

text \<open>Modelled from the spec: \<open>fs.hasConnFeed\<close> is not among the sources.  Spec
  4.3: \<open>HasConnFeed(c, f)\<close> mirrors the per-connection subscription: \<open>c\<close> is a
  member of the subscribers of \<open>f\<close>.\<close>

definition fs_hasConnFeed :: "state \<Rightarrow> conn \<Rightarrow> PubKey \<Rightarrow> bool" where
  "fs_hasConnFeed s c pk =
     (case map_of (n_feeds s) pk of Some cs \<Rightarrow> c \<in> cs | None \<Rightarrow> False)"

text \<open>Modelled from the spec: \<open>fs.addConnFeed\<close> is not among the sources.  Spec
  4.3: \<open>AddConnFeed(c, f)\<close> adds \<open>(c, f)\<close> to the registry; it is
  \<open>Node.addConnToFeed\<close>.\<close>

definition fs_addConnFeed :: "state \<Rightarrow> conn \<Rightarrow> PubKey \<Rightarrow> state" where
  "fs_addConnFeed s c pk = fst (addConnToFeed s c pk)"

text \<open>Modelled from the spec: \<open>fs.delConnFeed\<close> and \<open>Node.delConnFeed\<close> are not
  among the sources.  Spec 4.3: \<open>DelConnFeed(c, f)\<close> removes \<open>(c, f)\<close> from the
  registry; it is \<open>Node.delConnFromFeed\<close>.\<close>

definition fs_delConnFeed :: "state \<Rightarrow> conn \<Rightarrow> PubKey \<Rightarrow> state" where
  "fs_delConnFeed s c pk = fst (delConnFromFeed s c pk)"

text \<open>Modelled from the spec: \<open>fs.receivedRoot\<close> is not among the sources.  Spec
  4.2: a received Root is handed to the filler "only if both the node and this
  connection are subscribed" to its feed.\<close>

definition fs_receivedRoot :: "state \<Rightarrow> conn \<Rightarrow> registry_Root \<Rightarrow> state" where
  "fs_receivedRoot s c r =
     (if fs_hasConnFeed s c (r_Pub r) then s\<lparr>n_filling := n_filling s @ [(c, r)]\<rparr> else s)"

text \<open>Modelled from the spec: \<open>Node.Share\<close> is not among the sources.  The doc
  comment of \<open>Subscribe\<close>: it adds the feed to the node if the node does not
  have it; it is \<open>Node.AddFeed\<close>.\<close>

definition Share :: "state \<Rightarrow> PubKey \<Rightarrow> state \<times> error option" where
  "Share s pk = AddFeed s pk"

text \<open>Modelled from the spec: \<open>Node.delConnection\<close> is not among the sources.
  Spec 3: the close sequence "removes the Connection from the active set and from
  all feed subscription sets" and "removes it from the Want Registry".  The first
  and the last are \<open>Node.delConn\<close> and \<open>Node.delConnFromWantedObjects\<close>.\<close>

definition delConnection :: "state \<Rightarrow> conn \<Rightarrow> state" where
  "delConnection s c =
     (let s = delConn s c;
          s = s\<lparr>n_feeds := map (\<lambda>(pk, cs). (pk, cs - {c})) (n_feeds s)\<rparr>
      in delConnFromWantedObjects s c)"

text \<open>Modelled from the spec: \<open>Node.onDisconenct\<close> is not among the sources.
  Spec 3: the close sequence "invokes \<open>onDisconnect(conn, reason)\<close>", the
  application's callback; the call is recorded.\<close>

definition onDisconenct :: "state \<Rightarrow> conn \<Rightarrow> error option \<Rightarrow> state" where
  "onDisconenct s c reason = s\<lparr>n_disconnects := n_disconnects s @ [(c, reason)]\<rparr>"

section \<open>The Container\<close>

text \<open>
  The Container (\<open>c.n.c\<close>, package \<open>skyobject\<close>) is not among the sources; what
  \<open>conn.go\<close> calls is modelled from the spec.  The model keeps the Roots in the
  order they were stored; the Roots of a head are those with its feed and nonce.
\<close>

text \<open>Modelled from the spec: the Roots the Container holds for a head.  Spec,
  glossary: a head is "identified by a nonce; each head is a linear sequence of
  Roots".\<close>

definition head_roots :: "state \<Rightarrow> PubKey \<Rightarrow> nat \<Rightarrow> registry_Root list" where
  "head_roots s pk nonce = filter (\<lambda>r. r_Pub r = pk \<and> r_Nonce r = nonce) (ct_roots s)"

text \<open>Modelled from the spec: \<open>Container.LastRootSeq\<close> is not among the sources.
  Spec 4.2 and 6: it gives "the highest accepted seq" for the feed and nonce, or
  one of the sentinel errors \<open>ErrNoSuchFeed\<close>, \<open>ErrNoSuchHead\<close>,
  \<open>ErrNotFound\<close>.\<close>

definition LastRootSeq :: "state \<Rightarrow> PubKey \<Rightarrow> nat \<Rightarrow> nat \<times> error option" where
  "LastRootSeq s pk nonce =
     (if pk \<notin> set (ct_feeds s) then (0, Some ErrNoSuchFeed)
      else case head_roots s pk nonce of
             [] \<Rightarrow> (0, Some ErrNoSuchHead)
           | rs \<Rightarrow> (fold max (map r_Seq rs) 0, None))"

text \<open>Modelled from the spec: \<open>Container.LastRoot\<close> is not among the sources.
  Spec 6: \<open>LastRoot(feed, nonce)\<close> gives the latest Root of the head, if any.\<close>

definition LastRoot :: "state \<Rightarrow> PubKey \<Rightarrow> nat \<Rightarrow> registry_Root option \<times> error option" where
  "LastRoot s pk nonce =
     (if pk \<notin> set (ct_feeds s) then (None, Some ErrNoSuchFeed)
      else case head_roots s pk nonce of
             [] \<Rightarrow> (None, Some ErrNoSuchHead)
           | rs \<Rightarrow> (Some (last rs), None))"

text \<open>Modelled from the spec: \<open>Container.ActiveHead\<close> is not among the sources.
  Spec 6: \<open>ActiveHead(feed)\<close> gives a nonce.\<close>

definition ActiveHead :: "state \<Rightarrow> PubKey \<Rightarrow> nat" where
  "ActiveHead s pk = ct_active s pk"

text \<open>Modelled from the spec: \<open>Container.ReceivedRoot\<close> is not among the sources.
  Spec 6: \<open>ReceivedRoot(sig, body)\<close> does "verify and store".  The signature
  check and the decoding of the body are \<open>VerifyRoot\<close> of the environment.\<close>

definition ReceivedRoot ::
  "Env \<Rightarrow> state \<Rightarrow> byte list \<Rightarrow> byte list \<Rightarrow> state \<times> (error + registry_Root)" where
  "ReceivedRoot E s sig val =
     (case VerifyRoot E sig val of
        Inl err \<Rightarrow> (s, Inl err)
      | Inr r \<Rightarrow> (s\<lparr>ct_roots := ct_roots s @ [r]\<rparr>, Inr r))"

text \<open>Modelled from the spec: \<open>Container.Want\<close> is not among the sources.  Spec 6:
  \<open>Want(key, sink)\<close> subscribes the sink for the object's arrival.\<close>

definition Want :: "state \<Rightarrow> SHA256 \<Rightarrow> uint32 \<Rightarrow> state" where
  "Want s key gc = s\<lparr>ct_wants := ct_wants s @ [(key, gc)]\<rparr>"

text \<open>Modelled from the spec: \<open>Container.Unwant\<close> is not among the sources.  Spec
  6: \<open>Unwant(key, sink)\<close> ends the subscription of the sink.\<close>

definition Unwant :: "state \<Rightarrow> SHA256 \<Rightarrow> uint32 \<Rightarrow> state" where
  "Unwant s key gc = s\<lparr>ct_wants := remove1 (key, gc) (ct_wants s)\<rparr>"

section \<open>The connection: sending\<close>

text \<open>\<open>newConnection\<close> (the pending set of the node is not part of the model)
  and \<open>run\<close>, which raises the wait group by two and starts \<open>receiving\<close>.\<close>

definition newConnection :: "state \<Rightarrow> conn \<Rightarrow> state" where
  "newConnection s c =
     s\<lparr>self := c, c_seq := 0, c_reqs := Map.empty, c_chans := 0, c_sendq := [],
       c_closeq := False, c_closeo := False, c_closeo_done := False, c_Closed := False,
       c_await := 0, c_receiving := False, c_tasks := []\<rparr>"

definition run :: "state \<Rightarrow> state" where
  "run s = s\<lparr>c_await := c_await s + 2, c_receiving := True\<rparr>"

text \<open>\<open>nextSeq\<close> is \<open>atomic.AddUint32(&c.seq, 1)\<close>: it returns the new value, and
  wraps around at \<open>2^32\<close>.\<close>

definition nextSeq :: "state \<Rightarrow> state \<times> uint32" where
  "nextSeq s = (let v = c_seq s + 1 in (s\<lparr>c_seq := v\<rparr>, v))"

text \<open>
  \<open>sendRaw\<close> selects between the send on \<open>sendq\<close> and the close signal.  On an
  open connection only the send can be taken and the frame is queued (the
  model's queue has room).  Once \<open>closeq\<close> is closed both cases are ready and
  either may be taken: the frame is queued when \<open>SelectSend\<close> picks the send,
  and abandoned otherwise.
\<close>

definition sendRaw :: "Env \<Rightarrow> state \<Rightarrow> byte list \<Rightarrow> state" where
  "sendRaw E s raw =
     (if c_closeq s \<and> SelectSend E s raw = False then s
      else s\<lparr>c_sendq := c_sendq s @ [raw]\<rparr>)"

definition sendMsg :: "Env \<Rightarrow> state \<Rightarrow> uint32 \<Rightarrow> uint32 \<Rightarrow> Msg \<Rightarrow> state" where
  "sendMsg E s seq rseq m = sendRaw E s (encodeMsg (Encode E) seq rseq m)"

definition sendErr :: "Env \<Rightarrow> state \<Rightarrow> uint32 \<Rightarrow> error \<Rightarrow> state" where
  "sendErr E s rseq err = (case nextSeq s of (s, seq) \<Rightarrow> sendMsg E s seq rseq (Err (Error err)))"

definition sendOk :: "Env \<Rightarrow> state \<Rightarrow> uint32 \<Rightarrow> state" where
  "sendOk E s rseq = (case nextSeq s of (s, seq) \<Rightarrow> sendMsg E s seq rseq Ok)"

definition sendRoot :: "Env \<Rightarrow> state \<Rightarrow> registry_Root \<Rightarrow> state" where
  "sendRoot E s r =
     (case nextSeq s of
        (s, seq) \<Rightarrow>
          sendMsg E s seq 0
            (Root \<lparr>Feed = r_Pub r, Nonce = r_Nonce r, Seq = r_Seq r,
                   Value = EncodeRoot E r, Sig = r_Sig r\<rparr>))"

definition sendLastRoot :: "Env \<Rightarrow> state \<Rightarrow> PubKey \<Rightarrow> state" where
  "sendLastRoot E s pk =
     (case fst (LastRoot s pk (ActiveHead s pk)) of
        Some r \<Rightarrow> sendRoot E s r
      | None \<Rightarrow> s)"

section \<open>The connection: requests\<close>

definition isResponse :: "state \<Rightarrow> uint32 \<Rightarrow> chan option" where
  "isResponse s rseq = c_reqs s rseq"

definition addRequest :: "state \<Rightarrow> uint32 \<Rightarrow> chan \<Rightarrow> state" where
  "addRequest s seq rq = s\<lparr>c_reqs := (c_reqs s)(seq \<mapsto> rq)\<rparr>"

definition delRequest :: "state \<Rightarrow> uint32 \<Rightarrow> state" where
  "delRequest s seq = s\<lparr>c_reqs := (c_reqs s)(seq := None)\<rparr>"

text \<open>
  \<open>sendRequest\<close> makes the reply channel \<open>rq\<close>, takes the next seq, registers
  \<open>rq\<close> under it, sends the request and then waits in a \<open>select\<close>; the
  deferred \<open>delRequest\<close> runs when it returns.  The two halves are separate
  functions, so that steps of the receive task can stand between them.

  The \<open>select\<close> has three cases, and which one is taken is an input:
  \<^item> \<open>case rq <- reply\<close>: a \<^emph>\<open>send\<close> of the still unset \<open>reply\<close> (nil) on
    the unbuffered channel \<open>rq\<close>.  A send is taken only when another goroutine
    receives on the channel, and none does: the one other holder of \<open>rq\<close> is
    the table \<open>reqs\<close>, where it is send-only, and the receive task sends on it
    (\<open>rq <- m\<close>).  So this case can never be taken;
  \<^item> \<open>case <-tc\<close>: the timer, which exists only when \<open>ResponseTimeout > 0\<close>;
  \<^item> \<open>case <-c.closeq\<close>: the close signal.
  \<open>None\<close> says that the case cannot be taken in the state.
\<close>

datatype select_case = SendTaken | TimerFired | CloseSeen

definition sendRequest_begin :: "Env \<Rightarrow> state \<Rightarrow> Msg \<Rightarrow> state \<times> uint32 \<times> chan" where
  "sendRequest_begin E s m =
     (let rq = c_chans s;
          s = s\<lparr>c_chans := rq + 1\<rparr>
      in case nextSeq s of
           (s, seq) \<Rightarrow>
             let s = addRequest s seq rq;
                 s = sendMsg E s seq 0 m
             in (s, seq, rq))"

definition sendRequest_end ::
  "state \<Rightarrow> uint32 \<Rightarrow> select_case \<Rightarrow> (state \<times> Msg option \<times> error option) option" where
  "sendRequest_end s seq sel =
     (case sel of
        SendTaken \<Rightarrow> None
      | TimerFired \<Rightarrow>
          if n_ResponseTimeout s > 0 then Some (delRequest s seq, None, Some ErrTimeout)
          else None
      | CloseSeen \<Rightarrow>
          if c_closeq s then Some (delRequest s seq, None, Some ErrClosed) else None)"

definition sendRequest ::
  "Env \<Rightarrow> state \<Rightarrow> Msg \<Rightarrow> select_case \<Rightarrow> (state \<times> Msg option \<times> error option) option" where
  "sendRequest E s m sel =
     (case sendRequest_begin E s m of (s, seq, rq) \<Rightarrow> sendRequest_end s seq sel)"

text \<open>The \<open>%T\<close> of a reply, for the texts of \<open>fmt.Errorf\<close>.\<close>

fun typeName :: "Msg option \<Rightarrow> string" where
  "typeName None = ''<nil>''"
| "typeName (Some (Sub _)) = ''*msg.Sub''"
| "typeName (Some (Unsub _)) = ''*msg.Unsub''"
| "typeName (Some RqList) = ''*msg.RqList''"
| "typeName (Some (List _)) = ''*msg.List''"
| "typeName (Some (Root _)) = ''*msg.Root''"
| "typeName (Some (RqObject _)) = ''*msg.RqObject''"
| "typeName (Some (Object _)) = ''*msg.Object''"
| "typeName (Some (RqPreview _)) = ''*msg.RqPreview''"
| "typeName (Some Ok) = ''*msg.Ok''"
| "typeName (Some (Err _)) = ''*msg.Err''"
| "typeName (Some (OtherMsg _)) = ''*msg.Msg''"

text \<open>\<open>RemoteFeeds\<close>, after \<open>sendRequest\<close> has returned a reply.\<close>

definition RemoteFeeds_reply :: "Msg option \<Rightarrow> error + PubKey list" where
  "RemoteFeeds_reply reply =
     (case reply of
        Some (List feeds) \<Rightarrow> Inr feeds
      | Some (Err x) \<Rightarrow> Inl (errors_New x)
      | _ \<Rightarrow> Inl (errors_New (''invalid response type '' @ typeName reply)))"

text \<open>
  \<open>Subscribe\<close>: the feed is shared first, then \<open>Sub\<close> is requested; on \<open>Ok\<close>
  the connection is added to the feed and this side's last Root of the feed is
  sent to the peer (\<open>c.sendLastRoot(pk)\<close> in the source; the feed is meant).
\<close>

definition Subscribe_reply :: "Env \<Rightarrow> state \<Rightarrow> PubKey \<Rightarrow> Msg option \<Rightarrow> state \<times> error option" where
  "Subscribe_reply E s feed reply =
     (let err = (case reply of
                   Some Ok \<Rightarrow> None
                 | Some (Err x) \<Rightarrow> Some (errors_New x)
                 | _ \<Rightarrow> Some (errors_New (''invalid response type '' @ typeName reply)))
      in if err \<noteq> None then (s, err)
         else let s = fs_addConnFeed s (self s) feed;
                  s = sendLastRoot E s feed
              in (s, None))"

definition Subscribe ::
  "Env \<Rightarrow> state \<Rightarrow> PubKey \<Rightarrow> select_case \<Rightarrow> (state \<times> error option) option" where
  "Subscribe E s feed sel =
     (case Share s feed of
        (s, Some err) \<Rightarrow> Some (s, Some err)
      | (s, None) \<Rightarrow>
          (case sendRequest E s (Sub feed) sel of
             None \<Rightarrow> None
           | Some (s, reply, Some err) \<Rightarrow> Some (s, Some err)
           | Some (s, reply, None) \<Rightarrow> Some (Subscribe_reply E s feed reply)))"

text \<open>\<open>unsubscribe\<close> and \<open>Unsubscribe\<close>.\<close>

definition unsubscribe :: "Env \<Rightarrow> state \<Rightarrow> PubKey \<Rightarrow> state" where
  "unsubscribe E s pk = (case nextSeq s of (s, seq) \<Rightarrow> sendMsg E s seq 0 (Unsub pk))"

definition Unsubscribe :: "Env \<Rightarrow> state \<Rightarrow> PubKey \<Rightarrow> state" where
  "Unsubscribe E s feed = unsubscribe E (fs_delConnFeed s (self s) feed) feed"

text \<open>
  \<open>cget.Get\<close>: the object is requested (\<open>RqObject\<close> of the key), and the reply is
  inspected: an \<open>Object\<close> whose hash is not the key is refused with an error, an
  \<open>Err\<close> and any other type are errors too.  The function has the connection at
  hand (\<open>c.c\<close>); the state it returns is the connection after the call.
\<close>

definition Get_reply ::
  "Env \<Rightarrow> state \<Rightarrow> SHA256 \<Rightarrow> Msg option \<Rightarrow> state \<times> (error + byte list)" where
  "Get_reply E s key reply =
     (case reply of
        Some (Object v) \<Rightarrow>
          if SumSHA256 E v \<noteq> key
          then (s, Inl (errors_New ''wrong object received (different hash)''))
          else (s, Inr v)
      | Some (Err x) \<Rightarrow> (s, Inl (errors_New (''error: '' @ x)))
      | _ \<Rightarrow> (s, Inl (errors_New (''invalid msg type received: '' @ typeName reply))))"

definition Get ::
  "Env \<Rightarrow> state \<Rightarrow> SHA256 \<Rightarrow> select_case \<Rightarrow> (state \<times> (error + byte list)) option" where
  "Get E s key sel =
     (case sendRequest E s (RqObject key) sel of
        None \<Rightarrow> None
      | Some (s, reply, Some err) \<Rightarrow> Some (s, Inl err)
      | Some (s, reply, None) \<Rightarrow> Some (Get_reply E s key reply))"

section \<open>The connection: closing\<close>

text \<open>
  \<open>close\<close> runs its body under a \<open>sync.Once\<close>: \<open>delConnection\<close>, closing
  \<open>closeq\<close>, closing the transport, \<open>c.await.Wait()\<close>, then the callback
  \<open>onDisconenct\<close>.

  \<open>Wait\<close> returns when the counter of the wait group is zero.  The counter is
  lowered by the deferred \<open>Done\<close> of the connection's goroutines, once each:
  with \<open>closeq\<close> closed, the receive task leaves its loop and every
  \<open>handleRqObject\<close> leaves its \<open>select\<close>.  The receive task cannot do so
  when it is itself the caller (\<open>fatality\<close> is called inside \<open>receiving\<close>, whose
  \<open>Done\<close> is deferred to its return).  So \<open>Wait\<close> returns exactly when the
  counter equals the number of goroutines that can still leave; \<open>None\<close> says
  that it never returns.
\<close>

datatype caller = FromOutside | FromReceiving

definition Wait :: "caller \<Rightarrow> state \<Rightarrow> state option" where
  "Wait who s =
     (let leaving = (if c_receiving s \<and> who \<noteq> FromReceiving then 1 else 0) + length (c_tasks s)
      in if c_await s = leaving
         then Some (s\<lparr>c_await := 0, c_receiving := (c_receiving s \<and> who = FromReceiving),
                      c_tasks := []\<rparr>)
         else None)"

text \<open>The result of \<open>close\<close> is the state and whether the call returns.  A call
  that finds the \<open>Once\<close> entered returns when the first call has finished.\<close>

definition close :: "caller \<Rightarrow> state \<Rightarrow> error option \<Rightarrow> state \<times> bool" where
  "close who s reason =
     (if c_closeo s then (s, c_closeo_done s)
      else
        let s = s\<lparr>c_closeo := True\<rparr>;
            s = delConnection s (self s);
            s = s\<lparr>c_closeq := True\<rparr>;
            s = s\<lparr>c_Closed := True\<rparr>
        in case Wait who s of
             None \<Rightarrow> (s, False)
           | Some s \<Rightarrow> ((onDisconenct s (self s) reason)\<lparr>c_closeo_done := True\<rparr>, True))"

definition Close :: "state \<Rightarrow> state \<times> bool" where
  "Close s = close FromOutside s None"

text \<open>\<open>fatality\<close> is only called by the receive task (the log line is left out).\<close>

definition fatality :: "state \<Rightarrow> string \<Rightarrow> state \<times> bool" where
  "fatality s args = close FromReceiving s (Some (errors_New args))"

section \<open>The connection: handlers\<close>

definition handleSub :: "Env \<Rightarrow> state \<Rightarrow> uint32 \<Rightarrow> PubKey \<Rightarrow> state \<times> error option" where
  "handleSub E s seq feed =
     (let c = self s
      in if feed = blank_PubKey then (s, Some (errors_New ''blank public key''))
         else if fs_hasConnFeed s c feed = True then (sendOk E s seq, None)
         else case onSubscribeRemote E c feed s of
                (s, Some reject) \<Rightarrow> (sendErr E s seq reject, None)
              | (s, None) \<Rightarrow>
                  if fs_hasFeed s feed = False
                  then (sendErr E s seq (errors_New ''do not share the feed''), None)
                  else (sendOk E (fs_addConnFeed s c feed) seq, None))"

definition handleUnsub :: "state \<Rightarrow> uint32 \<Rightarrow> PubKey \<Rightarrow> state \<times> error option" where
  "handleUnsub s seq feed =
     (if feed = blank_PubKey then (s, Some (errors_New ''invalid request Unsub blank feed''))
      else (fst (delConnFromFeed s (self s) feed), None))"

definition handleRqList :: "Env \<Rightarrow> state \<Rightarrow> uint32 \<Rightarrow> state \<times> error option" where
  "handleRqList E s seq =
     (if n_Public s = False then (sendErr E s seq ErrNotPublic, None)
      else case nextSeq s of
             (s, sq) \<Rightarrow>
               (case Feeds s of
                  (s, feeds) \<Rightarrow> (sendMsg E s sq seq (List feeds), None)))"

text \<open>
  \<open>handleRoot\<close>: the \<open>switch\<close> on the error of \<open>LastRootSeq\<close> returns for
  \<open>ErrNoSuchFeed\<close>, goes on for \<open>ErrNoSuchHead\<close> and \<open>ErrNotFound\<close>, and in
  the default case returns when \<open>last >= root.Seq\<close>.  Only then is
  \<open>ReceivedRoot\<close> called; its error is logged and the connection kept.
\<close>

definition handleRoot :: "Env \<Rightarrow> state \<Rightarrow> RootMsg \<Rightarrow> state \<times> error option" where
  "handleRoot E s root =
     (case LastRootSeq s (Feed root) (Nonce root) of
        (lastSeq, err) \<Rightarrow>
          if err = Some ErrNoSuchFeed then (s, None)
          else if err \<noteq> Some ErrNoSuchHead \<and> err \<noteq> Some ErrNotFound \<and> lastSeq \<ge> Seq root
          then (s, None)
          else (case ReceivedRoot E s (Sig root) (Value root) of
                  (s, Inl err) \<Rightarrow> (s, None)
                | (s, Inr r) \<Rightarrow>
                    if r_IsFull r then (s, None)
                    else (fs_receivedRoot s (self s) r, None)))"

text \<open>\<open>handleRqPreview\<close>.  A nil Root without an error would make the Go code
  panic on \<open>r.Pub\<close>; the model reports it as an error of the handler.\<close>

definition handleRqPreview :: "Env \<Rightarrow> state \<Rightarrow> uint32 \<Rightarrow> PubKey \<Rightarrow> state \<times> error option" where
  "handleRqPreview E s seq feed =
     (case LastRoot s feed (ActiveHead s feed) of
        (_, Some err) \<Rightarrow>
          (case nextSeq s of (s, sq) \<Rightarrow> (sendMsg E s sq seq (Err (Error err)), None))
      | (None, None) \<Rightarrow> (s, Some (errors_New ''panic: nil pointer dereference''))
      | (Some r, None) \<Rightarrow>
          (case nextSeq s of
             (s, sq) \<Rightarrow>
               (sendMsg E s sq seq
                  (Root \<lparr>Feed = r_Pub r, Nonce = r_Nonce r, Seq = r_Seq r,
                         Value = EncodeRoot E r, Sig = r_Sig r\<rparr>), None)))"

text \<open>
  \<open>handleRqObject\<close> runs in a goroutine of its own.  It registers a buffered
  channel with \<open>Container.Want\<close> (the request's seq names the channel here) and
  replies at once when the object is there (spec 4.2: "if the object is
  immediately available"; in the model, when the Container holds it).  Otherwise it waits in a \<open>select\<close>
  for the object, for the timer (which exists only when \<open>ResponseTimeout > 0\<close>)
  or for the close signal; what happens is the input \<open>ev\<close>, and \<open>None\<close> says
  that it cannot happen in the state.  The deferred calls \<open>Unwant\<close> and
  \<open>await.Done\<close> run on every return.
\<close>

datatype rq_event = ObjectArrives "byte list" | TimeoutElapses | CloseSignal

definition rqObject_return :: "state \<Rightarrow> uint32 \<Rightarrow> SHA256 \<Rightarrow> state" where
  "rqObject_return s seq key =
     (let s = Unwant s key seq
      in s\<lparr>c_await := c_await s - 1, c_tasks := remove1 (seq, key) (c_tasks s)\<rparr>)"

definition handleRqObject ::
  "Env \<Rightarrow> state \<Rightarrow> uint32 \<Rightarrow> SHA256 \<Rightarrow> rq_event \<Rightarrow> state option" where
  "handleRqObject E s seq key ev =
     (let s = Want s key seq
      in case ct_objects s key of
           Some val \<Rightarrow>
             (case nextSeq s of
                (s, sq) \<Rightarrow> Some (rqObject_return (sendMsg E s sq seq (Object val)) seq key))
         | None \<Rightarrow>
             (case ev of
                ObjectArrives val \<Rightarrow>
                  (case nextSeq s of
                     (s, sq) \<Rightarrow> Some (rqObject_return (sendMsg E s sq seq (Object val)) seq key))
              | TimeoutElapses \<Rightarrow>
                  if n_ResponseTimeout s > 0
                  then (case nextSeq s of
                          (s, sq) \<Rightarrow> Some (rqObject_return (sendMsg E s sq seq (Err [])) seq key))
                  else None
              | CloseSignal \<Rightarrow>
                  if c_closeq s then Some (rqObject_return s seq key) else None))"

text \<open>
  \<open>handle\<close> dispatches a message that is not a reply.  \<open>RqObject\<close> raises the
  wait group and spawns \<open>handleRqObject\<close>.  \<open>Object\<close>, \<open>Err\<close>, \<open>Ok\<close> and
  \<open>List\<close> are delayed replies and are ignored; every other type is an error.
\<close>

definition handle :: "Env \<Rightarrow> state \<Rightarrow> uint32 \<Rightarrow> Msg \<Rightarrow> state \<times> error option" where
  "handle E s seq m =
     (case m of
        Sub feed \<Rightarrow> handleSub E s seq feed
      | Unsub feed \<Rightarrow> handleUnsub s seq feed
      | RqList \<Rightarrow> handleRqList E s seq
      | Root root \<Rightarrow> handleRoot E s root
      | RqObject key \<Rightarrow>
          (s\<lparr>c_await := c_await s + 1, c_tasks := c_tasks s @ [(seq, key)]\<rparr>, None)
      | RqPreview feed \<Rightarrow> handleRqPreview E s seq feed
      | Object _ \<Rightarrow> (s, None)
      | Err _ \<Rightarrow> (s, None)
      | Ok \<Rightarrow> (s, None)
      | List _ \<Rightarrow> (s, None)
      | OtherMsg _ \<Rightarrow> (s, Some (errors_New (''invalid messege type '' @ typeName (Some m)))))"

section \<open>The connection: the receive task\<close>

text \<open>
  One turn of the loop of \<open>receiving\<close>.  The \<open>select\<close> yields a frame, or finds
  the receive queue closed, or sees the close signal (possible only when \<open>closeq\<close>
  is closed).  A decoded message whose \<open>rseq\<close> is registered in \<open>reqs\<close> is sent
  on the registered channel (\<open>rq <- m\<close>); any other message goes to \<open>handle\<close>.
  The outcome says how the task goes on: with the next turn, by returning (the
  deferred \<open>await.Done\<close> then runs), by the channel send \<open>rq <- m\<close>, or not at
  all when \<open>fatality\<close> does not return.
\<close>

datatype recv_event = Frame "byte list" | ReceiveqClosed | CloseSignalSeen

datatype outcome = Continue | Return | SendTo chan Msg | Blocked

definition receiving_return :: "state \<Rightarrow> state \<times> outcome" where
  "receiving_return s = (s\<lparr>c_await := c_await s - 1, c_receiving := False\<rparr>, Return)"

definition receiving_fatality :: "state \<Rightarrow> string \<Rightarrow> state \<times> outcome" where
  "receiving_fatality s args =
     (case fatality s args of
        (s, True) \<Rightarrow> receiving_return s
      | (s, False) \<Rightarrow> (s, Blocked))"

definition receiving_msg :: "Env \<Rightarrow> state \<Rightarrow> uint32 \<Rightarrow> uint32 \<Rightarrow> Msg \<Rightarrow> state \<times> outcome" where
  "receiving_msg E s seq rseq m =
     (case isResponse s rseq of
        Some rq \<Rightarrow> (s, SendTo rq m)
      | None \<Rightarrow>
          (case handle E s seq m of
             (s, Some err) \<Rightarrow> receiving_fatality s (''error handling messege: '' @ Error err)
           | (s, None) \<Rightarrow> (s, Continue)))"

definition receiving :: "Env \<Rightarrow> state \<Rightarrow> recv_event \<Rightarrow> (state \<times> outcome) option" where
  "receiving E s ev =
     (case ev of
        ReceiveqClosed \<Rightarrow> Some (receiving_return s)
      | CloseSignalSeen \<Rightarrow> if c_closeq s then Some (receiving_return s) else None
      | Frame raw \<Rightarrow>
          if length raw < 9
          then Some (receiving_fatality s ''invalid messege received: samll size'')
          else
            let seq = the (Uint32 raw);
                raw = drop 4 raw;
                rseq = the (Uint32 raw);
                raw = drop 4 raw
            in case Decode E raw of
                 Inl err \<Rightarrow>
                   Some (receiving_fatality s (''can't decode received messege: '' @ Error err))
               | Inr m \<Rightarrow> Some (receiving_msg E s seq rseq m))"

section \<open>Traces of a connection\<close>

text \<open>
  What can happen on a connection, one step at a time: a caller starts a request
  (first half of \<open>sendRequest\<close>), a request returns (second half), a message is
  sent outside a request (\<open>sendOk\<close>, \<open>sendErr\<close>, \<open>sendRoot\<close>,
  \<open>unsubscribe\<close>: \<open>nextSeq\<close> and \<open>sendMsg\<close>), the receive task treats a
  decoded message, a spawned \<open>handleRqObject\<close> runs.  A step that cannot be
  taken in a state leaves it as it is.
\<close>

datatype conn_op =
    OpRequest Msg
  | OpReturn uint32 select_case
  | OpSend uint32 Msg
  | OpReceive uint32 uint32 Msg
  | OpTask uint32 SHA256 rq_event

fun exec_op :: "Env \<Rightarrow> conn_op \<Rightarrow> state \<Rightarrow> state" where
  "exec_op E (OpRequest m) s = fst (sendRequest_begin E s m)"
| "exec_op E (OpReturn seq sel) s =
     (case sendRequest_end s seq sel of Some (s', _) \<Rightarrow> s' | None \<Rightarrow> s)"
| "exec_op E (OpSend rseq m) s = (case nextSeq s of (s, sq) \<Rightarrow> sendMsg E s sq rseq m)"
| "exec_op E (OpReceive seq rseq m) s = fst (receiving_msg E s seq rseq m)"
| "exec_op E (OpTask seq key ev) s =
     (case handleRqObject E s seq key ev of Some s' \<Rightarrow> s' | None \<Rightarrow> s)"

fun exec :: "Env \<Rightarrow> conn_op list \<Rightarrow> state \<Rightarrow> state" where
  "exec E [] s = s"
| "exec E (op # ops) s = exec E ops (exec_op E op s)"

text \<open>
  How one step may move the seq counter and the request table, when it registers
  nothing: the counter stays or goes up by one, the table stays.  And what holds
  after \<open>k\<close> steps of a new connection: the counter is at most \<open>k\<close> and nothing
  is registered under seq 0.
\<close>

definition seq_step :: "state \<Rightarrow> state \<Rightarrow> bool" where
  "seq_step s s' = ((c_seq s' = c_seq s \<or> c_seq s' = c_seq s + 1) \<and> c_reqs s' = c_reqs s)"

definition seq_inv :: "nat \<Rightarrow> state \<Rightarrow> bool" where
  "seq_inv k s = (unat (c_seq s) \<le> k \<and> c_reqs s 0 = None)"

text \<open>The application callback leaves the connection's own counter and request
  table alone (they are private fields of the package).\<close>

definition callback_keeps_conn :: "Env \<Rightarrow> bool" where
  "callback_keeps_conn E =
     (\<forall>c pk s. c_seq (fst (onSubscribeRemote E c pk s)) = c_seq s
              \<and> c_reqs (fst (onSubscribeRemote E c pk s)) = c_reqs s)"

section \<open>Invariants of the node's feed registry\<close>

text \<open>A Go map has each key once, and the copy-on-write list of feeds is either
  cleared or the list of the keys it was built from.\<close>

definition feeds_ok :: "state \<Rightarrow> bool" where
  "feeds_ok s =
     (distinct (map fst (n_feeds s))
      \<and> (n_feedsl s = [] \<or> n_feedsl s = map fst (n_feeds s)))"

text \<open>The Roots a head holds were stored with strictly increasing seq.\<close>

definition head_seqs :: "state \<Rightarrow> PubKey \<Rightarrow> nat \<Rightarrow> nat list" where
  "head_seqs s pk nonce = map r_Seq (head_roots s pk nonce)"

definition roots_increasing :: "state \<Rightarrow> bool" where
  "roots_increasing s = (\<forall>pk nonce. sorted_wrt (<) (head_seqs s pk nonce))"

text \<open>A Root message is honest when its header fields are those of the Root its
  body decodes to.\<close>

definition header_matches_body :: "Env \<Rightarrow> RootMsg \<Rightarrow> bool" where
  "header_matches_body E root =
     (case VerifyRoot E (Sig root) (Value root) of
        Inl err \<Rightarrow> True
      | Inr r \<Rightarrow> r_Pub r = Feed root \<and> r_Nonce r = Nonce root \<and> r_Seq r = Seq root)"

section \<open>An environment and states to evaluate the model on\<close>

text \<open>
  A stand-in for the parts outside the repository: messages are encoded as one
  type byte (followed by the text for \<open>Err\<close>), the "hash" of a value is the
  sum of its bytes, 32 times, a Root body is the 33 bytes of the feed followed by
  a nonce byte and a seq byte and verifies when the signature is not empty, the
  callback accepts every subscription, and a send on a closed connection is
  abandoned.  \<open>exFeed\<close> is the feed
  \<open>0x01..01\<close>.
\<close>

definition exFeed :: PubKey where
  "exFeed = replicate 33 1"

fun exEncode :: "Msg \<Rightarrow> byte list" where
  "exEncode (Sub _) = [1]"
| "exEncode (Unsub _) = [2]"
| "exEncode RqList = [3]"
| "exEncode (List _) = [4]"
| "exEncode (Root _) = [5]"
| "exEncode (RqObject _) = [6]"
| "exEncode (Object _) = [7]"
| "exEncode (RqPreview _) = [8]"
| "exEncode Ok = [9]"
| "exEncode (Err x) = 10 # map (\<lambda>c. of_nat (of_char c)) x"
| "exEncode (OtherMsg _) = [11]"

definition exDecode :: "byte list \<Rightarrow> error + Msg" where
  "exDecode raw =
     (if raw = [3] then Inr RqList
      else if raw = [9] then Inr Ok
      else Inl (errors_New ''unknown type''))"

definition exVerifyRoot :: "byte list \<Rightarrow> byte list \<Rightarrow> error + registry_Root" where
  "exVerifyRoot sig val =
     (if length val \<noteq> 35 then Inl (errors_New ''bad root'')
      else if sig = [] then Inl (errors_New ''bad signature'')
      else Inr \<lparr>r_Pub = take 33 val, r_Nonce = unat (val ! 33), r_Seq = unat (val ! 34),
                r_Sig = sig, r_IsFull = False\<rparr>)"

definition exEnv :: Env where
  "exEnv = \<lparr>Encode = exEncode, Decode = exDecode,
            SumSHA256 = (\<lambda>v. replicate 32 (fold (+) v 0)),
            EncodeRoot = (\<lambda>r. r_Pub r @ [of_nat (r_Nonce r), of_nat (r_Seq r)]),
            VerifyRoot = exVerifyRoot,
            onSubscribeRemote = (\<lambda>c pk s. (s, None)),
            SelectSend = (\<lambda>s raw. False)\<rparr>"

text \<open>A node that shares nothing, is not public and has no timeout, with a
  connection number 1 just made; the same with the receive task started; and a
  public node with a timeout that shares the feed \<open>exFeed\<close> and holds its Root
  of seq 5.\<close>

definition exNode :: state where
  "exNode =
     \<lparr>self = 1, c_seq = 0, c_reqs = Map.empty, c_chans = 0, c_sendq = [],
      c_closeq = False, c_closeo = False, c_closeo_done = False, c_Closed = False,
      c_await = 0, c_receiving = False, c_tasks = [],
      n_Public = False, n_ResponseTimeout = 0, n_feeds = [], n_feedsl = [],
      n_conns = [1], n_connsl = [], n_wos = [], n_disconnects = [], n_filling = [],
      ct_feeds = [], ct_roots = [], ct_active = (\<lambda>pk. 0), ct_objects = Map.empty,
      ct_wants = []\<rparr>"

definition exRunning :: state where
  "exRunning = run (newConnection exNode 1)"

definition exRoot5 :: registry_Root where
  "exRoot5 = \<lparr>r_Pub = exFeed, r_Nonce = 0, r_Seq = 5, r_Sig = [1], r_IsFull = True\<rparr>"

definition exSharing :: state where
  "exSharing =
     exNode\<lparr>n_Public := True, n_ResponseTimeout := 100, n_feeds := [(exFeed, {})],
            ct_feeds := [exFeed], ct_roots := [exRoot5]\<rparr>"

text \<open>A pushed Root of \<open>exFeed\<close>, head 0, whose header agrees with its body.\<close>

definition exRootMsg :: "byte \<Rightarrow> RootMsg" where
  "exRootMsg q =
     \<lparr>Feed = exFeed, Nonce = 0, Seq = unat q, Value = exFeed @ [0, q], Sig = [1]\<rparr>"

text \<open>The Root that the stand-in verification makes of \<open>exRootMsg q\<close>.\<close>

definition exStored :: "byte \<Rightarrow> registry_Root" where
  "exStored q = \<lparr>r_Pub = exFeed, r_Nonce = 0, r_Seq = unat q, r_Sig = [1], r_IsFull = False\<rparr>"

text \<open>The connection of the node with a timeout, running; and the same after
  \<open>Get\<close> has begun its request for the object of hash \<open>0x00..00\<close> (seq 1,
  reply channel 0).\<close>

definition exTimed :: state where
  "exTimed = run (newConnection exSharing 1)"

definition exPending :: state where
  "exPending = fst (sendRequest_begin exEnv exTimed (RqObject (replicate 32 0)))"

text \<open>A Root message whose header says seq 9 while its body, whose signature
  verifies, is the Root of seq 3.\<close>

definition exLie :: RootMsg where
  "exLie = \<lparr>Feed = exFeed, Nonce = 0, Seq = 9, Value = exFeed @ [0, 3], Sig = [1]\<rparr>"

text \<open>A trace with one request: \<open>2^32 - 1\<close> replies \<open>Ok\<close> are sent (to as many
  messages of the peer), then \<open>RemoteFeeds\<close> begins its request.\<close>

definition exWrap :: "conn_op list" where
  "exWrap = replicate (2 ^ 32 - 1) (OpSend 7 Ok) @ [OpRequest RqList]"

section \<open>Properties of the codec\<close>

lemma le_bytes_word:
  "ucast (ucast v :: byte)
     OR push_bit 8 (ucast (ucast (drop_bit 8 v) :: byte))
     OR push_bit 16 (ucast (ucast (drop_bit 16 v) :: byte))
     OR push_bit 24 (ucast (ucast (drop_bit 24 v) :: byte)) = (v :: uint32)"
proof (rule bit_word_eqI)
  fix n assume "n < LENGTH(32)"
  then have n: "n < 32" by simp
  have "n < 8 \<or> (8 \<le> n \<and> n < 16) \<or> (16 \<le> n \<and> n < 24) \<or> 24 \<le> n" by arith
  then show "bit (ucast (ucast v :: byte)
                 OR push_bit 8 (ucast (ucast (drop_bit 8 v) :: byte))
                 OR push_bit 16 (ucast (ucast (drop_bit 16 v) :: byte))
                 OR push_bit 24 (ucast (ucast (drop_bit 24 v) :: byte)) :: uint32) n = bit v n"
    using n by (auto simp add: bit_simps)
qed

lemma Uint32_PutUint32:
  "length b = 4 \<Longrightarrow> Uint32 (the (PutUint32 b v) @ rest) = Some v"
proof -
  assume "length b = 4"
  then obtain b0 b1 b2 b3 where b: "b = [b0, b1, b2, b3]"
    by (cases b; simp; rename_tac b1 t; case_tac t; simp; rename_tac b2 t; case_tac t; simp;
        rename_tac b3 t; case_tac t; simp)
  show ?thesis
    unfolding b Uint32_def PutUint32_def by (simp add: le_bytes_word)
qed

lemma Uint32_zero: "Uint32 (replicate 4 0 @ rest) = Some 0"
  unfolding Uint32_def by (simp add: numeral_eq_Suc)

lemma encodeMsg_layout:
  "encodeMsg enc seq rseq m =
     the (PutUint32 (replicate 4 0) rseq) @ replicate 4 0 @ enc m"
proof -
  have r8: "replicate 8 (0::byte) = [0, 0, 0, 0, 0, 0, 0, 0]"
    by (simp add: numeral_eq_Suc)
  have r4: "replicate 4 (0::byte) = [0, 0, 0, 0]"
    by (simp add: numeral_eq_Suc)
  show ?thesis
    unfolding encodeMsg_def Let_def r8 r4 PutUint32_def by simp
qed

lemma length_PutUint32: "length b = 4 \<Longrightarrow> length (the (PutUint32 b v)) = 4"
  by (simp add: PutUint32_def)

text \<open>
  What a frame built by \<open>encodeMsg\<close> decodes to: the \<open>seq\<close> field of the
  frame holds the sender's \<open>rseq\<close>, and the \<open>rseq\<close> field is zero.
\<close>

lemma decodeRaw_encodeMsg:
  "decodeRaw dec (encodeMsg enc seq rseq m) =
     (if enc m = [] then Inl (errors_New ''invlaid messege received: too short'')
      else case dec (enc m) of Inl err \<Rightarrow> Inl err | Inr m' \<Rightarrow> Inr (rseq, 0, m'))"
proof -
  let ?h = "the (PutUint32 (replicate 4 0) rseq)"
  have len: "length ?h = 4" by (simp add: length_PutUint32)
  have d4: "drop 4 (?h @ replicate 4 0 @ enc m) = replicate 4 0 @ enc m"
    using len by simp
  have d8: "drop 4 (replicate 4 (0::byte) @ enc m) = enc m" by simp
  have u1: "Uint32 (?h @ replicate 4 0 @ enc m) = Some rseq"
    by (rule Uint32_PutUint32) simp
  have short: "(length (?h @ replicate 4 0 @ enc m) < 9) = (enc m = [])"
    using len by (cases "enc m") simp_all
  show ?thesis
    unfolding encodeMsg_layout decodeRaw_def Let_def short d4 d8 u1 Uint32_zero
    by (simp split: sum.splits)
qed

text \<open>
  Claim C1 (codec round-trip): decoding the frame produced by encoding
  \<open>(seq, rseq, m)\<close> should yield \<open>(seq, rseq, m)\<close>.  On the code it does not:
  whatever the message encoder and decoder are, the frame encoded for
  \<open>seq = 1\<close>, \<open>rseq = 2\<close> never decodes to \<open>(1, 2, m)\<close>, because
  \<open>encodeMsg\<close> writes \<open>rseq\<close> over \<open>seq\<close> and leaves bytes 4..7 zero.
\<close>

theorem encodeMsg_decodeRaw_not_roundtrip:
  "decodeRaw dec (encodeMsg enc 1 2 m) \<noteq> Inr (1, 2, m)"
  unfolding decodeRaw_encodeMsg by (simp split: sum.splits)

section \<open>Subscription requests\<close>

lemma not_hasFeed_not_hasConnFeed: "\<not> fs_hasFeed s pk \<Longrightarrow> \<not> fs_hasConnFeed s c pk"
  by (simp add: fs_hasFeed_def HasFeed_def fs_hasConnFeed_def)

lemma sendErr_frame:
  "n_feeds (sendErr E s rseq e) = n_feeds s"
  "c_closeq (sendErr E s rseq e) = c_closeq s"
  "c_closeo (sendErr E s rseq e) = c_closeo s"
  by (simp_all add: sendErr_def nextSeq_def sendMsg_def sendRaw_def Let_def)

text \<open>
  Claim C6 (subscribe to an unshared feed): for an incoming \<open>Sub(f)\<close> with \<open>f\<close>
  not blank and not among the node's shared feeds, when the callback
  \<open>onSubscribeRemote\<close> does not reject (and the feed is still not shared when it
  returns), \<open>handleSub\<close> replies \<open>Err("do not share the feed")\<close> to the
  request's seq, no connection is a subscriber of \<open>f\<close> afterwards, and the
  connection stays open: the handler returns no error and the close signal and
  the close-once flag are untouched.
\<close>

theorem handleSub_unshared:
  assumes "feed \<noteq> blank_PubKey"
    and "\<not> fs_hasFeed s feed"
    and "onSubscribeRemote E (self s) feed s = (s', None)"
    and "\<not> fs_hasFeed s' feed"
  shows "handleSub E s seq feed = (sendErr E s' seq (errors_New ''do not share the feed''), None)
       \<and> n_feeds (fst (handleSub E s seq feed)) = n_feeds s'
       \<and> \<not> fs_hasConnFeed (fst (handleSub E s seq feed)) c feed
       \<and> c_closeq (fst (handleSub E s seq feed)) = c_closeq s'
       \<and> c_closeo (fst (handleSub E s seq feed)) = c_closeo s'"
proof -
  have nc: "\<not> fs_hasConnFeed s (self s) feed"
    using assms(2) by (rule not_hasFeed_not_hasConnFeed)
  have eq: "handleSub E s seq feed = (sendErr E s' seq (errors_New ''do not share the feed''), None)"
    using assms nc by (simp add: handleSub_def Let_def)
  have "\<not> fs_hasConnFeed (sendErr E s' seq e) c feed" for e
    using assms(4) sendErr_frame(1)[of E s' seq e]
    by (simp add: fs_hasFeed_def HasFeed_def fs_hasConnFeed_def)
  then show ?thesis using eq sendErr_frame by simp
qed

text \<open>The theorem at work: a node that shares nothing receives \<open>Sub(exFeed)\<close> with
  seq 7; the one frame it sends is the \<open>Err\<close> reply to 7.\<close>

theorem handleSub_unshared_witness:
  "handleSub exEnv exNode 7 exFeed =
     (sendErr exEnv exNode 7 (errors_New ''do not share the feed''), None)
   \<and> c_sendq (fst (handleSub exEnv exNode 7 exFeed)) =
       [encodeMsg exEncode 1 7 (Err ''do not share the feed'')]
   \<and> n_feeds (fst (handleSub exEnv exNode 7 exFeed)) = []"
proof -
  have a: "exFeed \<noteq> blank_PubKey" by (simp add: blank_PubKey_def exFeed_def)
  have b: "\<not> fs_hasFeed exNode exFeed" by (simp add: fs_hasFeed_def HasFeed_def exNode_def)
  have c: "onSubscribeRemote exEnv (self exNode) exFeed exNode = (exNode, None)"
    by (simp add: exEnv_def)
  show ?thesis using handleSub_unshared [OF a b c b, of 7 1]
    by (simp add: sendErr_def nextSeq_def sendMsg_def sendRaw_def Let_def exNode_def exEnv_def)
qed

section \<open>The list of feeds\<close>

text \<open>The invariant of the feed registry holds for a node without feeds and is
  kept by every function of the node that writes \<open>feeds\<close> or \<open>feedsl\<close>.\<close>

lemma keys_update_present:
  "map_of al k = Some v \<Longrightarrow> map fst (AList.update k w al) = map fst al"
  by (auto simp add: update_keys dest: map_of_SomeD intro: rev_image_eqI)

lemma feeds_ok_AddFeed: "feeds_ok s \<Longrightarrow> feeds_ok (fst (AddFeed s pk))"
  by (auto simp add: feeds_ok_def AddFeed_def so_AddFeed_def distinct_update split: option.splits)

lemma feeds_ok_delFeed: "feeds_ok s \<Longrightarrow> feeds_ok (fst (delFeed s pk))"
  by (auto simp add: feeds_ok_def delFeed_def distinct_delete)

lemma feeds_ok_Feeds: "feeds_ok s \<Longrightarrow> feeds_ok (fst (Feeds s))"
  by (auto simp add: feeds_ok_def Feeds_def Let_def)

lemma feeds_ok_addConnToFeed: "feeds_ok s \<Longrightarrow> feeds_ok (fst (addConnToFeed s c pk))"
  by (auto simp add: feeds_ok_def addConnToFeed_def keys_update_present split: option.splits)

lemma feeds_ok_delConnFromFeed: "feeds_ok s \<Longrightarrow> feeds_ok (fst (delConnFromFeed s c pk))"
  by (auto simp add: feeds_ok_def delConnFromFeed_def keys_update_present split: option.splits)

lemma feeds_ok_delConnection: "feeds_ok s \<Longrightarrow> feeds_ok (delConnection s c)"
  by (auto simp add: feeds_ok_def delConnection_def delConn_def delConnFromWantedObjects_def
        Let_def comp_def case_prod_unfold)

lemma Feeds_ok:
  assumes "feeds_ok s"
  shows "Feeds s = (s\<lparr>n_feedsl := map fst (n_feeds s)\<rparr>, map fst (n_feeds s))"
  using assms by (auto simp add: Feeds_def feeds_ok_def Let_def)

lemma keys_HasFeed: "set (map fst (n_feeds s)) = {pk. HasFeed s pk}"
  by (auto simp add: HasFeed_def map_of_eq_None_iff image_iff)

text \<open>
  Claim C7 (RqList gating): on an incoming \<open>RqList\<close> a node that is not
  configured as a public server replies \<open>Err(ErrNotPublic)\<close> to the request's
  seq; a public one replies \<open>List\<close> with the keys of \<open>feeds\<close>, each once, which
  are exactly the feeds the node has (\<open>HasFeed\<close>).
\<close>

theorem handleRqList_gating:
  assumes "feeds_ok s"
  shows "handleRqList E s seq =
           (if n_Public s then
              (sendMsg E (s\<lparr>c_seq := c_seq s + 1, n_feedsl := map fst (n_feeds s)\<rparr>)
                 (c_seq s + 1) seq (List (map fst (n_feeds s))), None)
            else (sendErr E s seq ErrNotPublic, None))
       \<and> set (map fst (n_feeds s)) = {pk. HasFeed s pk}
       \<and> distinct (map fst (n_feeds s))"
proof -
  have f: "Feeds (s\<lparr>c_seq := c_seq s + 1\<rparr>) =
        (s\<lparr>c_seq := c_seq s + 1, n_feedsl := map fst (n_feeds s)\<rparr>, map fst (n_feeds s))"
    using assms Feeds_ok [of "s\<lparr>c_seq := c_seq s + 1\<rparr>"] by (simp add: feeds_ok_def)
  have "handleRqList E s seq =
           (if n_Public s then
              (sendMsg E (s\<lparr>c_seq := c_seq s + 1, n_feedsl := map fst (n_feeds s)\<rparr>)
                 (c_seq s + 1) seq (List (map fst (n_feeds s))), None)
            else (sendErr E s seq ErrNotPublic, None))"
    using f by (simp add: handleRqList_def nextSeq_def Let_def)
  moreover have "distinct (map fst (n_feeds s))"
    using assms by (simp add: feeds_ok_def)
  ultimately show ?thesis using keys_HasFeed [of s] by blast
qed

text \<open>The theorem at work on a node that is not public and on a public node
  that shares \<open>exFeed\<close>, both asked with seq 7.\<close>

theorem handleRqList_gating_witness:
  "feeds_ok exNode \<and> feeds_ok exSharing
   \<and> c_sendq (fst (handleRqList exEnv exNode 7)) =
       [encodeMsg exEncode 1 7 (Err ''not a public server'')]
   \<and> c_sendq (fst (handleRqList exEnv exSharing 7)) =
       [encodeMsg exEncode 1 7 (List [exFeed])]"
proof -
  have a: "feeds_ok exNode" by (simp add: feeds_ok_def exNode_def)
  have b: "feeds_ok exSharing" by (simp add: feeds_ok_def exNode_def exSharing_def)
  show ?thesis
    using a b handleRqList_gating [OF a, of exEnv 7] handleRqList_gating [OF b, of exEnv 7]
    by (simp add: sendErr_def nextSeq_def sendMsg_def sendRaw_def Let_def exNode_def
          exSharing_def exEnv_def)
qed

section \<open>Requests and replies\<close>

text \<open>\<open>sendRequest\<close> returns by its timer or by the close signal only, with no
  reply message: the reply variable is sent on the channel, never assigned.  So
  \<open>Get\<close>, which calls it, returns an error whatever arrives.\<close>

lemma sendRequest_reply_nil:
  "sendRequest E s m sel = Some (s', reply, err) \<Longrightarrow> reply = None"
  by (auto simp add: sendRequest_def sendRequest_end_def
      split: prod.splits select_case.splits if_splits)

lemma sendRequest_returns_error:
  "sendRequest E s m sel = Some (s', reply, err) \<Longrightarrow>
     reply = None \<and> (err = Some ErrTimeout \<or> err = Some ErrClosed)"
  by (auto simp add: sendRequest_def sendRequest_end_def
      split: prod.splits select_case.splits if_splits)

lemma sendRequest_begin_flags:
  "c_closeq (fst (sendRequest_begin E s m)) = c_closeq s"
  "c_closeo (fst (sendRequest_begin E s m)) = c_closeo s"
  "c_Closed (fst (sendRequest_begin E s m)) = c_Closed s"
  "n_disconnects (fst (sendRequest_begin E s m)) = n_disconnects s"
  by (simp_all add: sendRequest_begin_def nextSeq_def addRequest_def sendMsg_def sendRaw_def Let_def)

lemma sendRequest_end_flags:
  assumes "sendRequest_end s seq sel = Some (s', reply, err)"
  shows "c_closeq s' = c_closeq s" "c_closeo s' = c_closeo s" "c_Closed s' = c_Closed s"
    "n_disconnects s' = n_disconnects s"
  using assms
  by (auto simp add: sendRequest_end_def delRequest_def split: select_case.splits if_splits)

lemma sendRequest_flags:
  assumes "sendRequest E s m sel = Some (s', reply, err)"
  shows "c_closeq s' = c_closeq s" "c_closeo s' = c_closeo s" "c_Closed s' = c_Closed s"
    "n_disconnects s' = n_disconnects s"
proof -
  obtain s1 seq rq where b: "sendRequest_begin E s m = (s1, seq, rq)"
    by (cases "sendRequest_begin E s m") auto
  then have e: "sendRequest_end s1 seq sel = Some (s', reply, err)"
    using assms by (simp add: sendRequest_def)
  have s1: "s1 = fst (sendRequest_begin E s m)" using b by simp
  show "c_closeq s' = c_closeq s" "c_closeo s' = c_closeo s" "c_Closed s' = c_Closed s"
    "n_disconnects s' = n_disconnects s"
    using sendRequest_end_flags [OF e] sendRequest_begin_flags [of E s m] s1 by simp_all
qed

lemma Get_returns:
  assumes "Get E s key sel = Some (s', r)"
  shows "\<exists>reply err. sendRequest E s (RqObject key) sel = Some (s', reply, Some err) \<and> r = Inl err"
proof -
  obtain s1 reply err where q: "sendRequest E s (RqObject key) sel = Some (s1, reply, err)"
    using assms by (auto simp add: Get_def split: option.splits)
  then have n: "reply = None" and e: "err \<noteq> None"
    using sendRequest_returns_error [OF q] by auto
  then show ?thesis using assms q by (auto simp add: Get_def)
qed

lemma Get_never_accepts: "Get E s key sel = Some (s', r) \<Longrightarrow> \<exists>e. r = Inl e"
  using Get_returns by blast

text \<open>
  Claim C2 (request/response matching), as amended: the receive task hands a
  decoded message whose \<open>rseq\<close> is registered in \<open>reqs\<close> to the channel
  registered under that \<open>rseq\<close> and not to the handlers; a message whose \<open>rseq\<close>
  matches no pending request is dispatched by type: \<open>Object\<close>, \<open>Err\<close>, \<open>Ok\<close>
  and \<open>List\<close> are discarded, the state is unchanged and the loop continues;
  every other type goes to its handler.
\<close>

theorem receiving_msg_dispatch:
  "receiving_msg E s seq rseq m =
     (case isResponse s rseq of
        Some rq \<Rightarrow> (s, SendTo rq m)
      | None \<Rightarrow>
          (case m of
             Object v \<Rightarrow> (s, Continue)
           | Err x \<Rightarrow> (s, Continue)
           | Ok \<Rightarrow> (s, Continue)
           | List l \<Rightarrow> (s, Continue)
           | _ \<Rightarrow> (case handle E s seq m of
                    (s', Some err) \<Rightarrow>
                      receiving_fatality s' (''error handling messege: '' @ Error err)
                  | (s', None) \<Rightarrow> (s', Continue))))"
  by (simp add: receiving_msg_def handle_def split: option.splits Msg.splits)

text \<open>The theorem at work: a late \<open>Ok\<close> for the unknown seq 5 is dropped, and a
  message for the registered seq 1 goes to the channel of that request.\<close>

theorem receiving_msg_dispatch_witness:
  "receiving_msg exEnv exRunning 3 5 Ok = (exRunning, Continue)
   \<and> snd (receiving_msg exEnv (fst (sendRequest_begin exEnv exRunning RqList)) 3 1 Ok)
       = SendTo 0 Ok"
  using receiving_msg_dispatch [of exEnv exRunning 3 5 Ok]
    receiving_msg_dispatch [of exEnv "fst (sendRequest_begin exEnv exRunning RqList)" 3 1 Ok]
  by (simp add: isResponse_def sendRequest_begin_def nextSeq_def addRequest_def sendMsg_def
        sendRaw_def Let_def exRunning_def run_def newConnection_def)

text \<open>
  Claim C2 as stated fails: an incoming message whose \<open>rseq\<close> matches no pending
  request is not always discarded without side effects.  \<open>RqList\<close> arriving with
  the unknown \<open>rseq\<close> 5 is answered (a frame is sent and the seq counter moves),
  and a \<open>Root\<close> arriving with the unknown \<open>rseq\<close> 5 is verified and stored.
\<close>

theorem unknown_rseq_not_discarded:
  "isResponse exRunning 5 = None
   \<and> c_sendq (fst (receiving_msg exEnv exRunning 3 5 RqList)) =
        [encodeMsg exEncode 1 3 (Err ''not a public server'')]
   \<and> c_seq (fst (receiving_msg exEnv exRunning 3 5 RqList)) = 1
   \<and> fst (receiving_msg exEnv exRunning 3 5 RqList) \<noteq> exRunning
   \<and> isResponse exSharing 5 = None
   \<and> map r_Seq (ct_roots (fst (receiving_msg exEnv exSharing 3 5
        (Root \<lparr>Feed = exFeed, Nonce = 0, Seq = 6, Value = exFeed @ [0, 6], Sig = [1]\<rparr>))))
       = [5, 6]"
proof -
  have 1: "isResponse exRunning 5 = None"
    by (simp add: isResponse_def exRunning_def run_def newConnection_def)
  have 2: "c_sendq (fst (receiving_msg exEnv exRunning 3 5 RqList)) =
        [encodeMsg exEncode 1 3 (Err ''not a public server'')]"
    by (simp add: receiving_msg_def isResponse_def handle_def handleRqList_def sendErr_def
          nextSeq_def sendMsg_def sendRaw_def exRunning_def run_def newConnection_def
          exNode_def exEnv_def Let_def)
  have 3: "c_seq (fst (receiving_msg exEnv exRunning 3 5 RqList)) = 1"
    by (simp add: receiving_msg_def isResponse_def handle_def handleRqList_def sendErr_def
          nextSeq_def sendMsg_def sendRaw_def exRunning_def run_def newConnection_def
          exNode_def exEnv_def Let_def)
  have 4: "c_seq exRunning = 0" by (simp add: exRunning_def run_def newConnection_def)
  from 3 4 have 5: "fst (receiving_msg exEnv exRunning 3 5 RqList) \<noteq> exRunning" by auto
  have 6: "isResponse exSharing 5 = None"
    by (simp add: isResponse_def exSharing_def exNode_def)
  have v: "exVerifyRoot [1] (exFeed @ [0, 6]) =
      Inr \<lparr>r_Pub = exFeed, r_Nonce = 0, r_Seq = 6, r_Sig = [1], r_IsFull = False\<rparr>"
    by (simp add: exVerifyRoot_def exFeed_def nth_append)
  have 7: "map r_Seq (ct_roots (fst (receiving_msg exEnv exSharing 3 5
        (Root \<lparr>Feed = exFeed, Nonce = 0, Seq = 6, Value = exFeed @ [0, 6], Sig = [1]\<rparr>))))
       = [5, 6]"
    by (simp add: receiving_msg_def isResponse_def handle_def handleRoot_def LastRootSeq_def
          head_roots_def ReceivedRoot_def fs_receivedRoot_def fs_hasConnFeed_def v
          exSharing_def exNode_def exEnv_def exRoot5_def Let_def)
  from 1 2 3 5 6 7 show ?thesis by simp
qed

section \<open>Object integrity\<close>

text \<open>
  Claim C3 (object integrity), as amended: for an \<open>Object\<close> reply to an
  outstanding \<open>RqObject(key)\<close>, a value whose hash is not the key is never
  accepted, that is, never returned by \<open>Get\<close>; and the connection is not
  terminated: the receive task hands the reply to the channel of the request
  and leaves the state as it is, and whatever \<open>Get\<close> returns, the close signal,
  the close-once flag and the transport are as before and \<open>onDisconnect\<close> has
  not been called.
\<close>

theorem Get_mismatch_not_accepted:
  "(SumSHA256 E v \<noteq> key \<longrightarrow> Get E s key sel \<noteq> Some (s', Inr v))
   \<and> (Get E s key sel = Some (s', r) \<longrightarrow>
        c_closeq s' = c_closeq s \<and> c_closeo s' = c_closeo s \<and> c_Closed s' = c_Closed s
        \<and> n_disconnects s' = n_disconnects s)
   \<and> (isResponse s rseq = Some rq \<longrightarrow>
        receiving_msg E s seq rseq (Object v) = (s, SendTo rq (Object v)))"
proof -
  have 1: "Get E s key sel \<noteq> Some (s', Inr v)"
    using Get_returns [of E s key sel s' "Inr v"] by auto
  have 2: "c_closeq s' = c_closeq s \<and> c_closeo s' = c_closeo s \<and> c_Closed s' = c_Closed s
        \<and> n_disconnects s' = n_disconnects s" if g: "Get E s key sel = Some (s', r)"
  proof -
    obtain reply err where q: "sendRequest E s (RqObject key) sel = Some (s', reply, Some err)"
      using Get_returns [OF g] by blast
    show ?thesis using sendRequest_flags [OF q] by simp
  qed
  have 3: "receiving_msg E s seq rseq (Object v) = (s, SendTo rq (Object v))"
    if "isResponse s rseq = Some rq"
    using that by (simp add: receiving_msg_def)
  show ?thesis using 1 2 3 by blast
qed

text \<open>The theorem at work: \<open>Get\<close> asks for the object of hash \<open>0x00..00\<close> on
  the running connection, an \<open>Object\<close> of another hash arrives for its seq, and
  \<open>Get\<close> returns by its timer.\<close>

lemma exTimed_fields:
  "c_closeq exTimed = False" "c_closeo exTimed = False" "c_Closed exTimed = False"
  "n_disconnects exTimed = []" "n_ResponseTimeout exTimed = 100" "c_seq exTimed = 0"
  "c_chans exTimed = 0" "c_reqs exTimed = Map.empty"
  by (simp_all add: exTimed_def run_def newConnection_def exSharing_def exNode_def)

lemma exPending_fields:
  "c_closeq exPending = False" "c_closeo exPending = False" "c_Closed exPending = False"
  "n_disconnects exPending = []" "n_ResponseTimeout exPending = 100"
  "c_reqs exPending 1 = Some 0"
  by (simp_all add: exPending_def sendRequest_begin_def nextSeq_def addRequest_def sendMsg_def
      sendRaw_def Let_def exTimed_fields)

theorem Get_mismatch_not_accepted_witness:
  "SumSHA256 exEnv [1] \<noteq> replicate 32 0
   \<and> map_option snd (Get exEnv exTimed (replicate 32 0) TimerFired) = Some (Inl ErrTimeout)
   \<and> map_option (c_closeq \<circ> fst) (Get exEnv exTimed (replicate 32 0) TimerFired) = Some False
   \<and> isResponse exPending 1 = Some 0
   \<and> receiving_msg exEnv exPending 9 1 (Object [1]) = (exPending, SendTo 0 (Object [1]))"
proof -
  have h: "SumSHA256 exEnv [1] \<noteq> replicate 32 0" by (simp add: exEnv_def)
  have i: "isResponse exPending 1 = Some 0" by (simp add: isResponse_def exPending_fields)
  have e: "sendRequest_end exPending 1 TimerFired = Some (delRequest exPending 1, None, Some ErrTimeout)"
    by (simp add: sendRequest_end_def exPending_fields)
  have b: "sendRequest_begin exEnv exTimed (RqObject (replicate 32 0)) = (exPending, 1, 0)"
    by (simp add: exPending_def sendRequest_begin_def nextSeq_def Let_def exTimed_fields)
  have g: "Get exEnv exTimed (replicate 32 0) TimerFired = Some (delRequest exPending 1, Inl ErrTimeout)"
    by (simp add: Get_def sendRequest_def b e)
  show ?thesis
    using h i g
      Get_mismatch_not_accepted [of exEnv "[1]" "replicate 32 0" exPending TimerFired
        "delRequest exPending 1" "Inl ErrTimeout" 1 0 9]
      Get_mismatch_not_accepted [of exEnv "[1]" "replicate 32 0" exTimed TimerFired
        "delRequest exPending 1" "Inl ErrTimeout" 1 0 9]
    by (simp add: exTimed_fields)
qed


text \<open>
  Claim C3 as stated fails: \<open>Get\<close> has begun its request (seq 1), the peer
  replies to it with an \<open>Object\<close> whose hash is not the key, the receive task
  hands the reply to the channel, \<open>Get\<close> returns with the timeout error, and
  the connection is not terminated: the close signal is not raised, the \<open>Once\<close>
  not entered, the transport not closed, \<open>onDisconnect\<close> not called.
\<close>

theorem Get_mismatch_keeps_connection:
  "SumSHA256 exEnv [1] \<noteq> replicate 32 0
   \<and> exPending = fst (sendRequest_begin exEnv exTimed (RqObject (replicate 32 0)))
   \<and> isResponse exPending 1 = Some 0
   \<and> receiving_msg exEnv exPending 9 1 (Object [1]) = (exPending, SendTo 0 (Object [1]))
   \<and> map_option (snd \<circ> snd) (sendRequest_end exPending 1 TimerFired) = Some (Some ErrTimeout)
   \<and> map_option (c_closeq \<circ> fst) (sendRequest_end exPending 1 TimerFired) = Some False
   \<and> map_option (c_closeo \<circ> fst) (sendRequest_end exPending 1 TimerFired) = Some False
   \<and> map_option (c_Closed \<circ> fst) (sendRequest_end exPending 1 TimerFired) = Some False
   \<and> map_option (n_disconnects \<circ> fst) (sendRequest_end exPending 1 TimerFired) = Some []
   \<and> map_option snd (Get exEnv exTimed (replicate 32 0) TimerFired) = Some (Inl ErrTimeout)"
proof -
  have h: "SumSHA256 exEnv [1] \<noteq> replicate 32 0" by (simp add: exEnv_def)
  have i: "isResponse exPending 1 = Some 0" by (simp add: isResponse_def exPending_fields)
  have r: "receiving_msg exEnv exPending 9 1 (Object [1]) = (exPending, SendTo 0 (Object [1]))"
    using i by (simp add: receiving_msg_def)
  have e: "sendRequest_end exPending 1 TimerFired = Some (delRequest exPending 1, None, Some ErrTimeout)"
    by (simp add: sendRequest_end_def exPending_fields)
  have b: "sendRequest_begin exEnv exTimed (RqObject (replicate 32 0)) = (exPending, 1, 0)"
    by (simp add: exPending_def sendRequest_begin_def nextSeq_def Let_def exTimed_fields)
  have g: "Get exEnv exTimed (replicate 32 0) TimerFired = Some (delRequest exPending 1, Inl ErrTimeout)"
    by (simp add: Get_def sendRequest_def b e)
  show ?thesis using h i r
    by (simp add: e g delRequest_def exPending_fields exPending_def [symmetric])
qed

section \<open>Subscribing\<close>

lemma hasConnFeed_addConnFeed:
  "fs_hasFeed s pk \<Longrightarrow> fs_hasConnFeed (fs_addConnFeed s c pk) c pk"
  by (auto simp add: fs_hasFeed_def HasFeed_def fs_hasConnFeed_def fs_addConnFeed_def
      addConnToFeed_def update_conv' split: option.splits)

lemma sendOk_open:
  "\<not> c_closeq s \<Longrightarrow>
     c_sendq (sendOk E s rseq) = c_sendq s @ [encodeMsg (Encode E) (c_seq s + 1) rseq Ok]"
  by (simp add: sendOk_def nextSeq_def sendMsg_def sendRaw_def Let_def)

lemma sendOk_frame:
  "n_feeds (sendOk E s rseq) = n_feeds s"
  by (simp add: sendOk_def nextSeq_def sendMsg_def sendRaw_def Let_def)

lemma addConnFeed_frame:
  "c_closeq (fs_addConnFeed s c pk) = c_closeq s"
  "c_sendq (fs_addConnFeed s c pk) = c_sendq s"
  "c_seq (fs_addConnFeed s c pk) = c_seq s"
  by (simp_all add: fs_addConnFeed_def addConnToFeed_def split: option.splits)

text \<open>
  Claim C5 (subscribe happy path), as amended: for an incoming \<open>Sub(F)\<close> with
  \<open>F\<close> not blank, from a connection not yet subscribed, when the callback
  accepts and the node shares \<open>F\<close>, \<open>handleSub\<close> adds the connection to the
  subscribers of \<open>F\<close> and sends one frame, \<open>Ok\<close> in reply to the request's
  seq; it sends no Root.
\<close>

theorem subscribe_accepted:
  assumes "feed \<noteq> blank_PubKey"
    and "\<not> fs_hasConnFeed s (self s) feed"
    and "onSubscribeRemote E (self s) feed s = (s', None)"
    and "fs_hasFeed s' feed"
    and "\<not> c_closeq s'"
  shows "handleSub E s seq feed = (sendOk E (fs_addConnFeed s' (self s) feed) seq, None)
       \<and> fs_hasConnFeed (fst (handleSub E s seq feed)) (self s) feed
       \<and> c_sendq (fst (handleSub E s seq feed)) =
           c_sendq s' @ [encodeMsg (Encode E) (c_seq s' + 1) seq Ok]"
proof -
  have eq: "handleSub E s seq feed = (sendOk E (fs_addConnFeed s' (self s) feed) seq, None)"
    using assms by (simp add: handleSub_def Let_def)
  have "fs_hasConnFeed (fs_addConnFeed s' (self s) feed) (self s) feed"
    using assms(4) by (rule hasConnFeed_addConnFeed)
  then have sub: "fs_hasConnFeed (sendOk E (fs_addConnFeed s' (self s) feed) seq) (self s) feed"
    by (simp add: fs_hasConnFeed_def sendOk_frame)
  have q: "c_sendq (sendOk E (fs_addConnFeed s' (self s) feed) seq) =
           c_sendq s' @ [encodeMsg (Encode E) (c_seq s' + 1) seq Ok]"
    using assms(5) by (simp add: sendOk_open addConnFeed_frame)
  show ?thesis using eq sub q by simp
qed


text \<open>The theorem at work: the node that shares \<open>exFeed\<close> accepts connection 1.\<close>

theorem subscribe_accepted_witness:
  "handleSub exEnv exSharing 7 exFeed = (sendOk exEnv (fs_addConnFeed exSharing 1 exFeed) 7, None)
   \<and> n_feeds (fst (handleSub exEnv exSharing 7 exFeed)) = [(exFeed, {1})]
   \<and> c_sendq (fst (handleSub exEnv exSharing 7 exFeed)) = [encodeMsg exEncode 1 7 Ok]"
proof -
  have a: "exFeed \<noteq> blank_PubKey" by (simp add: blank_PubKey_def exFeed_def)
  have b: "\<not> fs_hasConnFeed exSharing (self exSharing) exFeed"
    by (simp add: fs_hasConnFeed_def exSharing_def exNode_def)
  have c: "onSubscribeRemote exEnv (self exSharing) exFeed exSharing = (exSharing, None)"
    by (simp add: exEnv_def)
  have d: "fs_hasFeed exSharing exFeed"
    by (simp add: fs_hasFeed_def HasFeed_def exSharing_def exNode_def)
  have e: "\<not> c_closeq exSharing" by (simp add: exSharing_def exNode_def)
  have f: "self exSharing = 1" by (simp add: exSharing_def exNode_def)
  show ?thesis using subscribe_accepted [OF a b c d e, of 7] f
    by (simp add: sendOk_def fs_addConnFeed_def addConnToFeed_def nextSeq_def sendMsg_def
          sendRaw_def Let_def exSharing_def exNode_def exEnv_def)
qed

text \<open>
  Claim C5 as stated fails: the peer holds a latest Root of the feed, accepts the
  subscription, and the only frame it sends to the subscriber is \<open>Ok\<close>; the
  subscriber does not receive the peer's Root from \<open>handleSub\<close>.
\<close>

theorem handleSub_sends_no_Root:
  "fst (LastRoot exSharing exFeed (ActiveHead exSharing exFeed)) = Some exRoot5
   \<and> c_sendq (fst (handleSub exEnv exSharing 7 exFeed)) = [encodeMsg exEncode 1 7 Ok]"
  by (simp add: handleSub_def blank_PubKey_def exFeed_def fs_hasConnFeed_def fs_hasFeed_def
        HasFeed_def sendOk_def LastRoot_def ActiveHead_def
        head_roots_def fs_addConnFeed_def addConnToFeed_def nextSeq_def sendMsg_def
        sendRaw_def Let_def exSharing_def exNode_def exEnv_def exRoot5_def)


section \<open>Serving objects\<close>


lemma rqObject_return_sendq: "c_sendq (rqObject_return s seq key) = c_sendq s"
  by (simp add: rqObject_return_def Unwant_def Let_def)

text \<open>
  Claim C9 (RqObject service), as amended: when the object is not there at once,
  \<open>handleRqObject\<close> waits; if the object arrives it replies \<open>Object(value)\<close> to
  the request's seq; if the timer fires, which needs a response timeout above
  zero, it replies an \<open>Err\<close> with an empty text; with no timeout configured the
  timer never fires; if the connection closes it sends nothing.
\<close>

theorem handleRqObject_waits:
  assumes "ct_objects s key = None"
  shows "(\<not> c_closeq s \<longrightarrow>
            map_option c_sendq (handleRqObject E s seq key (ObjectArrives v)) =
              Some (c_sendq s @ [encodeMsg (Encode E) (c_seq s + 1) seq (Object v)]))
       \<and> (\<not> c_closeq s \<and> n_ResponseTimeout s > 0 \<longrightarrow>
            map_option c_sendq (handleRqObject E s seq key TimeoutElapses) =
              Some (c_sendq s @ [encodeMsg (Encode E) (c_seq s + 1) seq (Err [])]))
       \<and> (n_ResponseTimeout s = 0 \<longrightarrow> handleRqObject E s seq key TimeoutElapses = None)
       \<and> (c_closeq s \<longrightarrow>
            map_option c_sendq (handleRqObject E s seq key CloseSignal) = Some (c_sendq s))"
  using assms
  by (simp add: handleRqObject_def Want_def nextSeq_def sendMsg_def sendRaw_def Let_def
        rqObject_return_sendq)

text \<open>The theorem at work on the node with a timeout of 100, open and closed, and
  on the node with no timeout.\<close>

theorem handleRqObject_waits_witness:
  "map_option c_sendq (handleRqObject exEnv exSharing 7 (replicate 32 0) (ObjectArrives [1]))
     = Some [encodeMsg exEncode 1 7 (Object [1])]
   \<and> map_option c_sendq (handleRqObject exEnv exSharing 7 (replicate 32 0) TimeoutElapses)
     = Some [encodeMsg exEncode 1 7 (Err [])]
   \<and> handleRqObject exEnv exNode 7 (replicate 32 0) TimeoutElapses = None
   \<and> map_option c_sendq
        (handleRqObject exEnv (exSharing\<lparr>c_closeq := True\<rparr>) 7 (replicate 32 0) CloseSignal)
     = Some []"
proof -
  have a: "ct_objects exSharing (replicate 32 0) = None"
    by (simp add: exSharing_def exNode_def)
  have b: "ct_objects exNode (replicate 32 0) = None"
    by (simp add: exNode_def)
  have c: "ct_objects (exSharing\<lparr>c_closeq := True\<rparr>) (replicate 32 0) = None"
    by (simp add: exSharing_def exNode_def)
  show ?thesis
    using handleRqObject_waits [OF a, of exEnv 7 "[1]"]
      handleRqObject_waits [OF b, of exEnv 7 "[1]"]
      handleRqObject_waits [OF c, of exEnv 7 "[1]"]
    by (simp add: exSharing_def exNode_def exEnv_def)
qed

text \<open>
  Claim C9 as stated fails: when the timer fires the reply is an \<open>Err\<close> with an
  empty text, which is not the frame of \<open>Err("timeout")\<close>.
\<close>

theorem handleRqObject_timeout_text:
  "map_option c_sendq (handleRqObject exEnv exSharing 7 (replicate 32 0) TimeoutElapses)
     = Some [encodeMsg exEncode 1 7 (Err [])]
   \<and> encodeMsg exEncode 1 7 (Err []) \<noteq> encodeMsg exEncode 1 7 (Err ''timeout'')"
  by (simp add: handleRqObject_def Want_def nextSeq_def sendMsg_def sendRaw_def Let_def
        rqObject_return_sendq exSharing_def exNode_def exEnv_def encodeMsg_layout)

section \<open>Sequence numbers and the request table\<close>

lemma seq_step_refl: "seq_step s s" by (simp add: seq_step_def)

lemma seq_step_sendErr: "seq_step s (sendErr E s rseq e)"
  by (simp add: seq_step_def sendErr_def nextSeq_def sendMsg_def sendRaw_def Let_def)

lemma seq_step_sendOk: "seq_step s (sendOk E s rseq)"
  by (simp add: seq_step_def sendOk_def nextSeq_def sendMsg_def sendRaw_def Let_def)

lemma addConnFeed_keeps:
  "c_seq (fs_addConnFeed s c pk) = c_seq s" "c_reqs (fs_addConnFeed s c pk) = c_reqs s"
  by (simp_all add: fs_addConnFeed_def addConnToFeed_def split: option.splits)

lemma seq_step_trans0: "c_seq s' = c_seq s \<Longrightarrow> c_reqs s' = c_reqs s \<Longrightarrow> seq_step s' s'' \<Longrightarrow> seq_step s s''"
  by (simp add: seq_step_def)

lemma seq_step_handleSub:
  assumes "callback_keeps_conn E"
  shows "seq_step s (fst (handleSub E s seq feed))"
proof -
  obtain s' r where cb: "onSubscribeRemote E (self s) feed s = (s', r)" by (cases "onSubscribeRemote E (self s) feed s")
  have k: "c_seq s' = c_seq s" "c_reqs s' = c_reqs s"
    using assms cb unfolding callback_keeps_conn_def by (metis fst_conv)+
  have a: "seq_step s (sendErr E s' seq e)" for e
    using k seq_step_sendErr [of s' E seq e] by (simp add: seq_step_def)
  have b: "seq_step s (sendOk E (fs_addConnFeed s' (self s) feed) seq)"
    using k seq_step_sendOk [of "fs_addConnFeed s' (self s) feed" E seq]
      addConnFeed_keeps [of s' "self s" feed] by (auto simp add: seq_step_def)
  show ?thesis
    using a b cb seq_step_sendOk [of s E seq]
    by (auto simp add: handleSub_def Let_def seq_step_refl split: option.splits)
qed

lemma seq_step_handleUnsub: "seq_step s (fst (handleUnsub s seq feed))"
  by (simp add: seq_step_def handleUnsub_def delConnFromFeed_def split: option.splits)

lemma seq_step_handleRqList: "seq_step s (fst (handleRqList E s seq))"
  using seq_step_sendErr [of s E seq ErrNotPublic]
  by (auto simp add: seq_step_def handleRqList_def nextSeq_def Feeds_def sendMsg_def sendRaw_def Let_def)

lemma seq_step_handleRoot: "seq_step s (fst (handleRoot E s root))"
  by (auto simp add: seq_step_def handleRoot_def ReceivedRoot_def fs_receivedRoot_def
      split: prod.splits sum.splits)

lemma seq_step_handleRqPreview: "seq_step s (fst (handleRqPreview E s seq feed))"
  by (auto simp add: seq_step_def handleRqPreview_def nextSeq_def sendMsg_def sendRaw_def Let_def
      split: prod.splits option.splits)

lemma seq_step_handle:
  assumes "callback_keeps_conn E"
  shows "seq_step s (fst (handle E s seq m))"
  using seq_step_handleSub [OF assms] seq_step_handleUnsub seq_step_handleRqList
    seq_step_handleRoot seq_step_handleRqPreview
  by (cases m) (simp_all add: handle_def seq_step_def)

lemma close_frame:
  "c_seq (fst (close who s r)) = c_seq s" "c_reqs (fst (close who s r)) = c_reqs s"
  by (simp_all add: close_def Wait_def delConnection_def delConn_def delConnFromWantedObjects_def
      onDisconenct_def Let_def split: option.splits)

lemma receiving_fatality_frame:
  "c_seq (fst (receiving_fatality s a)) = c_seq s" "c_reqs (fst (receiving_fatality s a)) = c_reqs s"
  using close_frame [of FromReceiving s "Some (errors_New a)"]
  by (auto simp add: receiving_fatality_def fatality_def receiving_return_def split: prod.splits bool.splits)

lemma seq_step_receiving_msg:
  assumes "callback_keeps_conn E"
  shows "seq_step s (fst (receiving_msg E s seq rseq m))"
  using seq_step_handle [OF assms, of s seq m] receiving_fatality_frame
  by (auto simp add: receiving_msg_def seq_step_def split: option.splits prod.splits)

lemma seq_step_handleRqObject:
  "handleRqObject E s seq key ev = Some s' \<Longrightarrow> seq_step s s'"
  by (auto simp add: handleRqObject_def Want_def rqObject_return_def Unwant_def nextSeq_def
      sendMsg_def sendRaw_def Let_def seq_step_def
      split: option.splits rq_event.splits if_splits)

lemma unat_succ_u32:
  fixes x :: uint32
  assumes "unat x < 2 ^ 32 - 1"
  shows "unat (x + 1) = Suc (unat x)" and "x + 1 \<noteq> 0"
proof -
  have "unat x + unat (1 :: uint32) < 2 ^ LENGTH(32)" using assms by simp
  then have "unat (x + 1) = unat x + unat (1 :: uint32)" by (simp only: unat_add_lem)
  then show u: "unat (x + 1) = Suc (unat x)" by simp
  show "x + 1 \<noteq> 0"
  proof
    assume "x + 1 = 0"
    then have "unat (x + 1) = 0" by simp
    with u show False by simp
  qed
qed

lemma seq_inv_seq_step:
  assumes "seq_inv k s" and "k < 2 ^ 32 - 1" and "seq_step s s'"
  shows "seq_inv (Suc k) s'"
proof -
  have lt: "unat (c_seq s) < 2 ^ 32 - 1" using assms(1,2) by (simp add: seq_inv_def)
  have "unat (c_seq s') \<le> Suc k"
    using assms(1,3) unat_succ_u32(1) [OF lt] by (auto simp add: seq_inv_def seq_step_def)
  then show ?thesis using assms(1,3) by (simp add: seq_inv_def seq_step_def)
qed

lemma seq_inv_exec_op:
  assumes "callback_keeps_conn E" and "seq_inv k s" and "k < 2 ^ 32 - 1"
  shows "seq_inv (Suc k) (exec_op E op s)"
proof (cases op)
  case (OpRequest m)
  have lt: "unat (c_seq s) < 2 ^ 32 - 1" using assms(2,3) by (simp add: seq_inv_def)
  have q: "c_seq (exec_op E op s) = c_seq s + 1"
    and r: "c_reqs (exec_op E op s) = (c_reqs s)(c_seq s + 1 \<mapsto> c_chans s)"
    unfolding OpRequest
    by (simp_all add: sendRequest_begin_def nextSeq_def addRequest_def sendMsg_def sendRaw_def Let_def)
  show ?thesis
    using assms(2) unat_succ_u32 [OF lt] q r by (auto simp add: seq_inv_def)
next
  case (OpReturn seq sel)
  have "c_seq (exec_op E op s) = c_seq s \<and> c_reqs (exec_op E op s) 0 = None"
    using assms(2) unfolding OpReturn
    by (auto simp add: sendRequest_end_def delRequest_def seq_inv_def
        split: select_case.splits option.splits if_splits)
  then show ?thesis using assms(2) by (simp add: seq_inv_def)
next
  case (OpSend rseq m)
  have "seq_step s (exec_op E op s)"
    unfolding OpSend by (simp add: seq_step_def nextSeq_def sendMsg_def sendRaw_def Let_def)
  then show ?thesis using assms(2,3) by (rule seq_inv_seq_step [rotated 2])
next
  case (OpReceive seq rseq m)
  have "seq_step s (exec_op E op s)"
    unfolding OpReceive using seq_step_receiving_msg [OF assms(1)] by simp
  then show ?thesis using assms(2,3) by (rule seq_inv_seq_step [rotated 2])
next
  case (OpTask seq key ev)
  have "seq_step s (exec_op E op s)"
    unfolding OpTask using seq_step_handleRqObject [of E s seq key ev]
    by (auto simp add: seq_step_refl split: option.splits)
  then show ?thesis using assms(2,3) by (rule seq_inv_seq_step [rotated 2])
qed

lemma seq_inv_exec:
  assumes "callback_keeps_conn E"
  shows "seq_inv k s \<Longrightarrow> k + length ops \<le> 2 ^ 32 - 1 \<Longrightarrow> seq_inv (k + length ops) (exec E ops s)"
proof (induction ops arbitrary: k s)
  case Nil
  then show ?case by simp
next
  case (Cons op ops)
  have "k < 2 ^ 32 - 1" using Cons.prems(2) by simp
  then have "seq_inv (Suc k) (exec_op E op s)"
    using seq_inv_exec_op [OF assms Cons.prems(1)] by simp
  moreover have "Suc k + length ops \<le> 2 ^ 32 - 1" using Cons.prems(2) by simp
  ultimately have "seq_inv (Suc k + length ops) (exec E ops (exec_op E op s))"
    by (rule Cons.IH)
  then show ?case by simp
qed

text \<open>
  Claim C10 (unsolicited messages are never taken for replies), as amended: the
  first seq a new connection hands out is 1; after any trace of fewer than
  \<open>2^32\<close> steps of the connection, of whatever kind (requests begun and
  returned, other messages sent, messages received and handled, object requests
  served: each takes at most one seq), with a callback that leaves the
  connection's counter and request table alone, no request is registered under
  seq 0, so \<open>isResponse\<close> finds nothing for \<open>rseq = 0\<close> and the receive task
  passes such a message to \<open>handle\<close>.
\<close>

theorem rseq_zero_is_unsolicited:
  assumes "callback_keeps_conn E" and "length ops < 2 ^ 32"
  shows "snd (nextSeq (newConnection s c)) = 1
       \<and> c_reqs (exec E ops (newConnection s c)) 0 = None
       \<and> isResponse (exec E ops (newConnection s c)) 0 = None
       \<and> receiving_msg E (exec E ops (newConnection s c)) seq 0 m =
           (case handle E (exec E ops (newConnection s c)) seq m of
              (s', Some err) \<Rightarrow> receiving_fatality s' (''error handling messege: '' @ Error err)
            | (s', None) \<Rightarrow> (s', Continue))"
proof -
  have "seq_inv 0 (newConnection s c)" by (simp add: seq_inv_def newConnection_def)
  moreover have "0 + length ops \<le> 2 ^ 32 - 1" using assms(2) by simp
  ultimately have "seq_inv (0 + length ops) (exec E ops (newConnection s c))"
    by (rule seq_inv_exec [OF assms(1)])
  then have z: "c_reqs (exec E ops (newConnection s c)) 0 = None" by (simp add: seq_inv_def)
  have one: "snd (nextSeq (newConnection s c)) = 1"
    by (simp add: nextSeq_def newConnection_def Let_def)
  show ?thesis using z one
    by (simp add: isResponse_def receiving_msg_def split: prod.splits option.splits)
qed

text \<open>The theorem at work on a short trace: two requests, a reply sent, a
  timeout; an \<open>Ok\<close> with \<open>rseq = 0\<close> then goes to \<open>handle\<close>, which ignores it.\<close>

theorem rseq_zero_is_unsolicited_witness:
  "callback_keeps_conn exEnv
   \<and> c_reqs (exec exEnv [OpRequest RqList, OpSend 0 Ok, OpReturn 1 TimerFired, OpRequest RqList]
        (newConnection exSharing 1)) 0 = None
   \<and> receiving_msg exEnv
        (exec exEnv [OpRequest RqList, OpSend 0 Ok, OpReturn 1 TimerFired, OpRequest RqList]
        (newConnection exSharing 1)) 9 0 Ok =
       (exec exEnv [OpRequest RqList, OpSend 0 Ok, OpReturn 1 TimerFired, OpRequest RqList]
        (newConnection exSharing 1), Continue)"
proof -
  have a: "callback_keeps_conn exEnv" by (simp add: callback_keeps_conn_def exEnv_def)
  have b: "length [OpRequest RqList, OpSend 0 Ok, OpReturn 1 TimerFired, OpRequest RqList] < (2::nat) ^ 32"
    by simp
  show ?thesis using a rseq_zero_is_unsolicited [OF a b, of exSharing 1 9 Ok]
    by (simp add: handle_def)
qed

text \<open>Past the interval the claim speaks of: when the counter stands at
  \<open>2^32 - 1\<close>, the next request is registered under seq 0.\<close>

lemma wrap_registers_zero:
  "c_seq s = - 1 \<Longrightarrow> c_reqs (fst (sendRequest_begin E s m)) 0 = Some (c_chans s)"
  by (simp add: sendRequest_begin_def nextSeq_def addRequest_def sendMsg_def sendRaw_def Let_def)

lemma exec_append: "exec E (xs @ ys) s = exec E ys (exec E xs s)"
  by (induction xs arbitrary: s) simp_all

lemma exec_sends:
  "c_seq (exec E (replicate n (OpSend r m)) s) = c_seq s + of_nat n
   \<and> c_reqs (exec E (replicate n (OpSend r m)) s) = c_reqs s
   \<and> c_chans (exec E (replicate n (OpSend r m)) s) = c_chans s"
proof (induction n arbitrary: s)
  case 0
  then show ?case by simp
next
  case (Suc n)
  have "c_seq (exec_op E (OpSend r m) s) = c_seq s + 1"
    "c_reqs (exec_op E (OpSend r m) s) = c_reqs s"
    "c_chans (exec_op E (OpSend r m) s) = c_chans s"
    by (simp_all add: nextSeq_def sendMsg_def sendRaw_def Let_def)
  then show ?case using Suc [of "exec_op E (OpSend r m) s"] by (simp add: algebra_simps)
qed

text \<open>
  Claim C10 as stated fails: the counter is shared by every message sent, not by
  requests only.  In a trace with a single request, after \<open>2^32 - 1\<close> replies,
  the request is registered under seq 0, and an incoming message with
  \<open>rseq = 0\<close> is handed to its channel instead of the handlers.
\<close>

theorem sends_wrap_the_counter:
  "exWrap = replicate (2 ^ 32 - 1) (OpSend 7 Ok) @ [OpRequest RqList]
   \<and> c_reqs (exec exEnv exWrap (newConnection exNode 1)) 0 = Some 0
   \<and> isResponse (exec exEnv exWrap (newConnection exNode 1)) 0 = Some 0
   \<and> snd (receiving_msg exEnv (exec exEnv exWrap (newConnection exNode 1)) 9 0 Ok) = SendTo 0 Ok"
proof -
  let ?s = "exec exEnv (replicate (2 ^ 32 - 1) (OpSend 7 Ok)) (newConnection exNode 1)"
  have q: "c_seq ?s = - 1" and c: "c_chans ?s = 0"
    using exec_sends [of exEnv "2 ^ 32 - 1" 7 Ok "newConnection exNode 1"]
    by (simp_all add: newConnection_def)
  have e: "exec exEnv exWrap (newConnection exNode 1) = fst (sendRequest_begin exEnv ?s RqList)"
    by (simp add: exWrap_def exec_append)
  have z: "c_reqs (exec exEnv exWrap (newConnection exNode 1)) 0 = Some 0"
    unfolding e using wrap_registers_zero [OF q, of exEnv RqList] c by simp
  show ?thesis using z by (simp add: isResponse_def receiving_msg_def) (simp add: exWrap_def)
qed

section \<open>Incoming Roots\<close>

lemma le_fold_max: "x \<in> set xs \<Longrightarrow> x \<le> fold max xs (a::nat)"
proof -
  assume "x \<in> set xs"
  then have "x \<le> Max (set (a # xs))" by (simp add: Max_ge)
  then show ?thesis by (simp only: Max.set_eq_fold)
qed

lemma handleRoot_old_dropped:
  assumes "LastRootSeq s (Feed root) (Nonce root) = (lastSeq, None)" and "Seq root \<le> lastSeq"
  shows "handleRoot E s root = (s, None)"
  using assms by (simp add: handleRoot_def)

lemma fs_receivedRoot_roots: "ct_roots (fs_receivedRoot s c r) = ct_roots s"
  by (simp add: fs_receivedRoot_def)

lemma handleRoot_roots:
  "ct_roots (fst (handleRoot E s root)) = ct_roots s
   \<or> (\<exists>r. VerifyRoot E (Sig root) (Value root) = Inr r
         \<and> ct_roots (fst (handleRoot E s root)) = ct_roots s @ [r]
         \<and> (\<forall>q \<in> set (head_seqs s (Feed root) (Nonce root)). q < Seq root))"
proof (cases "LastRootSeq s (Feed root) (Nonce root)")
  case (Pair lastSeq err)
  show ?thesis
  proof (cases "err = Some ErrNoSuchFeed \<or> (err \<noteq> Some ErrNoSuchHead \<and> err \<noteq> Some ErrNotFound \<and> lastSeq \<ge> Seq root)")
    case True
    then have "handleRoot E s root = (s, None)" using Pair by (auto simp add: handleRoot_def)
    then show ?thesis by simp
  next
    case False
    have older: "\<forall>q \<in> set (head_seqs s (Feed root) (Nonce root)). q < Seq root"
    proof (cases "head_roots s (Feed root) (Nonce root)")
      case Nil
      then show ?thesis by (simp add: head_seqs_def)
    next
      case (Cons a list)
      have "Feed root \<in> set (ct_feeds s)"
        using Pair False by (auto simp add: LastRootSeq_def split: if_splits)
      then have "err = None" and l: "lastSeq = fold max (head_seqs s (Feed root) (Nonce root)) 0"
        using Pair Cons by (auto simp add: LastRootSeq_def head_seqs_def)
      then have "lastSeq < Seq root" using False by auto
      then show ?thesis using l le_fold_max [of _ "head_seqs s (Feed root) (Nonce root)" 0]
        by (metis le_less_trans)
    qed
    have go: "handleRoot E s root =
        (case ReceivedRoot E s (Sig root) (Value root) of
           (s, Inl err) \<Rightarrow> (s, None)
         | (s, Inr r) \<Rightarrow> if r_IsFull r then (s, None) else (fs_receivedRoot s (self s) r, None))"
      using Pair False by (auto simp add: handleRoot_def)
    show ?thesis
    proof (cases "VerifyRoot E (Sig root) (Value root)")
      case (Inl e)
      then have "handleRoot E s root = (s, None)"
        unfolding go by (simp add: ReceivedRoot_def)
      then show ?thesis by simp
    next
      case (Inr r)
      have "ct_roots (fst (handleRoot E s root)) = ct_roots s @ [r]"
        unfolding go using Inr by (simp add: ReceivedRoot_def fs_receivedRoot_roots)
      then show ?thesis using Inr older by blast
    qed
  qed
qed

lemma head_seqs_append:
  "ct_roots s' = ct_roots s @ [r] \<Longrightarrow>
     head_seqs s' pk nonce =
       head_seqs s pk nonce @ (if r_Pub r = pk \<and> r_Nonce r = nonce then [r_Seq r] else [])"
  by (simp add: head_seqs_def head_roots_def)

lemma head_seqs_same: "ct_roots s' = ct_roots s \<Longrightarrow> head_seqs s' pk nonce = head_seqs s pk nonce"
  by (simp add: head_seqs_def head_roots_def)

lemma roots_increasing_handleRoot:
  assumes "roots_increasing s" and "header_matches_body E root"
  shows "roots_increasing (fst (handleRoot E s root))"
  using handleRoot_roots [of E s root]
proof
  assume "ct_roots (fst (handleRoot E s root)) = ct_roots s"
  then have "head_seqs (fst (handleRoot E s root)) pk nonce = head_seqs s pk nonce" for pk nonce
    by (rule head_seqs_same)
  then show ?thesis using assms(1) by (simp add: roots_increasing_def)
next
  assume "\<exists>r. VerifyRoot E (Sig root) (Value root) = Inr r
         \<and> ct_roots (fst (handleRoot E s root)) = ct_roots s @ [r]
         \<and> (\<forall>q \<in> set (head_seqs s (Feed root) (Nonce root)). q < Seq root)"
  then obtain r where v: "VerifyRoot E (Sig root) (Value root) = Inr r"
    and e: "ct_roots (fst (handleRoot E s root)) = ct_roots s @ [r]"
    and o: "\<forall>q \<in> set (head_seqs s (Feed root) (Nonce root)). q < Seq root" by blast
  have m: "r_Pub r = Feed root" "r_Nonce r = Nonce root" "r_Seq r = Seq root"
    using assms(2) v by (simp_all add: header_matches_body_def)
  have "sorted_wrt (<) (head_seqs (fst (handleRoot E s root)) pk nonce)" for pk nonce
  proof (cases "r_Pub r = pk \<and> r_Nonce r = nonce")
    case True
    then have "head_seqs (fst (handleRoot E s root)) pk nonce
        = head_seqs s (Feed root) (Nonce root) @ [Seq root]"
      using m head_seqs_append [OF e, of pk nonce] by auto
    moreover have "sorted_wrt (<) (head_seqs s (Feed root) (Nonce root))"
      using assms(1) by (simp add: roots_increasing_def)
    ultimately show ?thesis using o by (simp add: sorted_wrt_append)
  next
    case False
    then have "head_seqs (fst (handleRoot E s root)) pk nonce = head_seqs s pk nonce"
      using head_seqs_append [OF e, of pk nonce] by auto
    then show ?thesis using assms(1) by (simp add: roots_increasing_def)
  qed
  then show ?thesis by (simp add: roots_increasing_def)
qed

lemma roots_increasing_fold:
  "roots_increasing s \<Longrightarrow> list_all (header_matches_body E) roots \<Longrightarrow>
     roots_increasing (fold (\<lambda>root s. fst (handleRoot E s root)) roots s)"
  by (induction roots arbitrary: s) (simp_all add: roots_increasing_handleRoot)

text \<open>
  Claim C4 (Root monotonicity), as amended: an incoming Root whose header seq is
  at most the highest seq the Container holds for its feed and nonce is dropped,
  the state is unchanged (nothing is stored, and \<open>ReceivedRoot\<close>, which
  verifies, is not reached: the result does not depend on the environment); and
  when the seqs stored for every head are strictly increasing, they still are
  after any sequence of incoming Roots whose header fields (feed, nonce, seq)
  are those of their body.
\<close>

theorem handleRoot_monotone:
  "(snd (LastRootSeq s (Feed root) (Nonce root)) = None
      \<and> Seq root \<le> fst (LastRootSeq s (Feed root) (Nonce root))
      \<longrightarrow> handleRoot E s root = (s, None))
   \<and> (roots_increasing s \<and> list_all (header_matches_body E) roots
      \<longrightarrow> roots_increasing (fold (\<lambda>root s. fst (handleRoot E s root)) roots s))"
proof -
  have "handleRoot E s root = (s, None)"
    if "snd (LastRootSeq s (Feed root) (Nonce root)) = None"
      and "Seq root \<le> fst (LastRootSeq s (Feed root) (Nonce root))"
    using that handleRoot_old_dropped [of s root "fst (LastRootSeq s (Feed root) (Nonce root))" E]
    by (cases "LastRootSeq s (Feed root) (Nonce root)") simp
  then show ?thesis using roots_increasing_fold by blast
qed

lemma exVerify: "VerifyRoot exEnv (Sig (exRootMsg q)) (Value (exRootMsg q)) =
      Inr \<lparr>r_Pub = exFeed, r_Nonce = 0, r_Seq = unat q, r_Sig = [1], r_IsFull = False\<rparr>"
  by (simp add: exEnv_def exRootMsg_def exVerifyRoot_def exFeed_def nth_append)

lemma exHeader: "header_matches_body exEnv (exRootMsg q)"
  by (simp add: header_matches_body_def exVerify) (simp add: exRootMsg_def)

lemma exLast5: "LastRootSeq exSharing exFeed 0 = (5, None)"
  by (simp add: LastRootSeq_def head_roots_def exSharing_def exNode_def exRoot5_def)

lemma exIncreasing: "roots_increasing exSharing"
proof -
  have "head_seqs exSharing pk nonce = [] \<or> head_seqs exSharing pk nonce = [5]" for pk nonce
    by (simp add: head_seqs_def head_roots_def exSharing_def exNode_def exRoot5_def)
  then show ?thesis
    unfolding roots_increasing_def by (metis sorted_wrt.simps(1) sorted_wrt1)
qed

lemma handleRoot_accepts:
  assumes "LastRootSeq s (Feed root) (Nonce root) = (l, None)" and "l < Seq root"
    and "VerifyRoot E (Sig root) (Value root) = Inr r"
  shows "ct_roots (fst (handleRoot E s root)) = ct_roots s @ [r]"
    and "ct_feeds (fst (handleRoot E s root)) = ct_feeds s"
  using assms by (simp_all add: handleRoot_def ReceivedRoot_def fs_receivedRoot_def)

lemma exLastRootSeq:
  assumes "ct_feeds s = [exFeed]" and "ct_roots s = rs" and "rs \<noteq> []"
    and "list_all (\<lambda>r. r_Pub r = exFeed \<and> r_Nonce r = 0) rs"
  shows "LastRootSeq s (Feed (exRootMsg q)) (Nonce (exRootMsg q)) = (fold max (map r_Seq rs) 0, None)"
proof -
  have "filter (\<lambda>r. r_Pub r = exFeed \<and> r_Nonce r = 0) rs = rs"
    using assms(4) by (simp add: list_all_iff)
  then show ?thesis using assms(1,2,3)
    by (simp add: LastRootSeq_def head_roots_def exRootMsg_def split: list.splits)
qed

lemma exTrace:
  "map r_Seq (ct_roots (fold (\<lambda>root s. fst (handleRoot exEnv s root))
        [exRootMsg 6, exRootMsg 4, exRootMsg 7] exSharing)) = [5, 6, 7]"
proof -
  let ?s1 = "fst (handleRoot exEnv exSharing (exRootMsg 6))"
  let ?s3 = "fst (handleRoot exEnv ?s1 (exRootMsg 7))"
  have f0: "ct_feeds exSharing = [exFeed]" and r0: "ct_roots exSharing = [exRoot5]"
    by (simp_all add: exSharing_def exNode_def)
  have l0: "LastRootSeq exSharing (Feed (exRootMsg 6)) (Nonce (exRootMsg 6)) = (5, None)"
    using exLastRootSeq [OF f0 r0, of 6] by (simp add: exRoot5_def)
  have r1: "ct_roots ?s1 = [exRoot5, exStored 6]" and f1: "ct_feeds ?s1 = [exFeed]"
    using handleRoot_accepts [OF l0 _ exVerify [of 6]] r0 f0
    by (simp_all add: exRootMsg_def exStored_def)
  have l1: "LastRootSeq ?s1 (Feed (exRootMsg q)) (Nonce (exRootMsg q)) = (6, None)" for q
    using exLastRootSeq [OF f1 r1, of q] by (simp add: exRoot5_def exStored_def)
  have d: "fst (handleRoot exEnv ?s1 (exRootMsg 4)) = ?s1"
    using handleRoot_old_dropped [OF l1 [of 4], of exEnv] by (simp add: exRootMsg_def)
  have r3: "ct_roots ?s3 = [exRoot5, exStored 6, exStored 7]"
    using handleRoot_accepts(1) [OF l1 [of 7] _ exVerify [of 7]] r1
    by (simp add: exRootMsg_def exStored_def)
  show ?thesis using d r3 by (simp add: exRoot5_def exStored_def)
qed

text \<open>The theorem at work: the Container holds seq 5 of the head; Roots with seq
  6, 4 and 7 arrive; 4 is dropped, the head then holds 5, 6, 7.\<close>

theorem handleRoot_monotone_witness:
  "LastRootSeq exSharing exFeed 0 = (5, None)
   \<and> handleRoot exEnv exSharing (exRootMsg 4) = (exSharing, None)
   \<and> roots_increasing exSharing
   \<and> list_all (header_matches_body exEnv) [exRootMsg 6, exRootMsg 4, exRootMsg 7]
   \<and> map r_Seq (ct_roots (fold (\<lambda>root s. fst (handleRoot exEnv s root))
        [exRootMsg 6, exRootMsg 4, exRootMsg 7] exSharing)) = [5, 6, 7]
   \<and> roots_increasing (fold (\<lambda>root s. fst (handleRoot exEnv s root))
        [exRootMsg 6, exRootMsg 4, exRootMsg 7] exSharing)"
proof -
  have a: "snd (LastRootSeq exSharing (Feed (exRootMsg 4)) (Nonce (exRootMsg 4))) = None
      \<and> Seq (exRootMsg 4) \<le> fst (LastRootSeq exSharing (Feed (exRootMsg 4)) (Nonce (exRootMsg 4)))"
    using exLast5 by (simp add: exRootMsg_def)
  have c: "list_all (header_matches_body exEnv) [exRootMsg 6, exRootMsg 4, exRootMsg 7]"
    by (simp add: exHeader)
  show ?thesis
    using handleRoot_monotone [of exSharing "exRootMsg 4" exEnv "[exRootMsg 6, exRootMsg 4, exRootMsg 7]"]
      exLast5 a exIncreasing c exTrace by blast
qed

text \<open>
  Claim C4 as stated fails: \<open>handleRoot\<close> compares the seq of the message
  header with the stored one and then stores the Root of the body.  The head
  holds seq 5; a message whose header says seq 9 and whose body is the Root of
  seq 3 passes the check, and the head then holds 5, 3.
\<close>

theorem header_seq_is_not_checked:
  "Seq exLie = 9
   \<and> LastRootSeq exSharing (Feed exLie) (Nonce exLie) = (5, None)
   \<and> roots_increasing exSharing
   \<and> map r_Seq (ct_roots (fst (handleRoot exEnv exSharing exLie))) = [5, 3]
   \<and> head_seqs (fst (handleRoot exEnv exSharing exLie)) exFeed 0 = [5, 3]
   \<and> \<not> roots_increasing (fst (handleRoot exEnv exSharing exLie))"
proof -
  have l: "LastRootSeq exSharing (Feed exLie) (Nonce exLie) = (5, None)"
    using exLast5 by (simp add: exLie_def)
  have v: "VerifyRoot exEnv (Sig exLie) (Value exLie) = Inr (exStored 3)"
    by (simp add: exEnv_def exLie_def exVerifyRoot_def exFeed_def nth_append exStored_def)
  have r: "ct_roots (fst (handleRoot exEnv exSharing exLie)) = [exRoot5, exStored 3]"
    using handleRoot_accepts(1) [OF l _ v] by (simp add: exLie_def exSharing_def exNode_def)
  have h: "head_seqs (fst (handleRoot exEnv exSharing exLie)) exFeed 0 = [5, 3]"
    by (simp add: head_seqs_def head_roots_def r exRoot5_def exStored_def)
  have n: "\<not> roots_increasing (fst (handleRoot exEnv exSharing exLie))"
  proof
    assume "roots_increasing (fst (handleRoot exEnv exSharing exLie))"
    then have "sorted_wrt (<) (head_seqs (fst (handleRoot exEnv exSharing exLie)) exFeed 0)"
      by (simp add: roots_increasing_def)
    then show False by (simp add: h)
  qed
  show ?thesis using l exIncreasing r h n by (simp add: exLie_def exRoot5_def exStored_def)
qed

section \<open>Closing a connection\<close>

lemma delConnection_disconnects: "n_disconnects (delConnection s c) = n_disconnects s"
  by (simp add: delConnection_def delConn_def delConnFromWantedObjects_def Let_def)

lemma delConnection_conn:
  "c_await (delConnection s c) = c_await s"
  "c_tasks (delConnection s c) = c_tasks s"
  "c_receiving (delConnection s c) = c_receiving s"
  "c_closeo (delConnection s c) = c_closeo s"
  "c_closeo_done (delConnection s c) = c_closeo_done s"
  "self (delConnection s c) = self s"
  by (simp_all add: delConnection_def delConn_def delConnFromWantedObjects_def Let_def)

text \<open>When the counter of the wait group is not what the goroutines that can
  still leave will take off, \<open>close\<close> stays in \<open>Wait\<close>: it does not return and
  \<open>onDisconnect\<close> is not called; a later call finds the \<open>Once\<close> entered and
  does not return either.\<close>

lemma close_blocks:
  assumes "\<not> c_closeo s"
    and "c_await s \<noteq> (if c_receiving s \<and> who \<noteq> FromReceiving then 1 else 0) + length (c_tasks s)"
  shows "snd (close who s reason) = False"
    and "n_disconnects (fst (close who s reason)) = n_disconnects s"
    and "c_closeo (fst (close who s reason))"
    and "\<not> c_closeo_done (fst (close who s reason)) \<or> c_closeo_done s"
  using assms
  by (simp_all add: close_def Wait_def Let_def delConnection_disconnects delConnection_conn)

lemma close_again:
  assumes "c_closeo s"
  shows "close who s reason = (s, c_closeo_done s)"
  using assms by (simp add: close_def)

lemma run_counter:
  "c_await (run (newConnection s c)) = 2"
  "c_tasks (run (newConnection s c)) = []"
  "c_receiving (run (newConnection s c))"
  "\<not> c_closeo (run (newConnection s c))"
  "\<not> c_closeo_done (run (newConnection s c))"
  by (simp_all add: run_def newConnection_def)

lemma Close_after_run:
  "snd (Close (run (newConnection s c))) = False"
  "n_disconnects (fst (Close (run (newConnection s c)))) = n_disconnects s"
  "snd (Close (fst (Close (run (newConnection s c))))) = False"
  "fst (Close (fst (Close (run (newConnection s c))))) = fst (Close (run (newConnection s c)))"
proof -
  let ?r = "run (newConnection s c)"
  have b: "c_await ?r \<noteq> (if c_receiving ?r \<and> FromOutside \<noteq> FromReceiving then 1 else 0) + length (c_tasks ?r)"
    by (simp add: run_counter)
  have o: "\<not> c_closeo ?r" by (simp add: run_counter)
  show 1: "snd (Close ?r) = False" unfolding Close_def using close_blocks(1) [OF o b] by simp
  show "n_disconnects (fst (Close ?r)) = n_disconnects s"
    unfolding Close_def using close_blocks(2) [OF o b, of None]
    by (simp add: run_def newConnection_def)
  have e: "c_closeo (fst (Close ?r))" unfolding Close_def using close_blocks(3) [OF o b] by simp
  have d: "\<not> c_closeo_done (fst (Close ?r))"
    unfolding Close_def using close_blocks(4) [OF o b, of None] by (simp add: run_counter)
  show "snd (Close (fst (Close ?r))) = False"
    using close_again [OF e, of FromOutside None] d by (simp add: Close_def)
  show "fst (Close (fst (Close ?r))) = fst (Close ?r)"
    using close_again [OF e, of FromOutside None] by (simp add: Close_def)
qed

lemma fatality_blocks:
  assumes "\<not> c_closeo s" and "length (c_tasks s) < c_await s"
  shows "receiving_fatality s args = (fst (fatality s args), Blocked)"
    and "n_disconnects (fst (fatality s args)) = n_disconnects s"
proof -
  have b: "c_await s \<noteq> (if c_receiving s \<and> FromReceiving \<noteq> FromReceiving then 1 else 0) + length (c_tasks s)"
    using assms(2) by simp
  have "snd (fatality s args) = False"
    unfolding fatality_def using close_blocks(1) [OF assms(1) b] by simp
  then show "receiving_fatality s args = (fst (fatality s args), Blocked)"
    by (cases "fatality s args") (simp add: receiving_fatality_def)
  show "n_disconnects (fst (fatality s args)) = n_disconnects s"
    unfolding fatality_def using close_blocks(2) [OF assms(1) b] by simp
qed

text \<open>On a connection whose receive task was never started the close sequence
  runs through: \<open>onDisconnect\<close> is called once, and a second \<open>Close\<close> changes
  nothing.\<close>

lemma Close_not_running:
  assumes "\<not> c_closeo s" and "c_await s = 0" and "c_tasks s = []" and "\<not> c_receiving s"
  shows "snd (Close s) = True"
    and "n_disconnects (fst (Close s)) = n_disconnects s @ [(self s, None)]"
    and "Close (fst (Close s)) = (fst (Close s), True)"
proof -
  let ?d = "(delConnection (s\<lparr>c_closeo := True\<rparr>) (self s))\<lparr>c_closeq := True, c_Closed := True\<rparr>"
  have w: "Wait FromOutside ?d = Some (?d\<lparr>c_await := 0, c_receiving := False, c_tasks := []\<rparr>)"
    using assms by (simp add: Wait_def delConnection_conn)
  have c: "Close s =
      ((onDisconenct (?d\<lparr>c_await := 0, c_receiving := False, c_tasks := []\<rparr>) (self s) None)
         \<lparr>c_closeo_done := True\<rparr>, True)"
    using assms(1) w by (simp add: Close_def close_def Let_def delConnection_conn)
  show "snd (Close s) = True" by (simp add: c)
  show "n_disconnects (fst (Close s)) = n_disconnects s @ [(self s, None)]"
    by (simp add: c onDisconenct_def delConnection_disconnects)
  have "c_closeo (fst (Close s))" "c_closeo_done (fst (Close s))"
    by (simp_all add: c onDisconenct_def delConnection_conn)
  then show "Close (fst (Close s)) = (fst (Close s), True)"
    by (simp add: Close_def close_again)
qed

text \<open>
  Claim C8 (close sequence and idempotence): closing should be single-shot with
  exactly one \<open>onDisconnect\<close>, after the connection has been removed from the
  registries, the transport closed and the receive task waited for.  On the code,
  once \<open>run\<close> has started the receive task, the sequence stops in
  \<open>c.await.Wait()\<close>: \<open>run\<close> adds 2 to the wait group and only \<open>receiving\<close>
  calls \<open>Done\<close>; and a close started by the receive task itself (\<open>fatality\<close>)
  waits for its own return.  Evaluated on a running connection: \<open>Close\<close> called
  twice never returns and \<open>onDisconnect\<close> is never called (not once); a frame of
  three bytes makes the receive task close the connection, the close signal is
  raised, and the task stays blocked, again without \<open>onDisconnect\<close>.
\<close>

theorem close_never_calls_onDisconnect:
  "snd (Close exRunning) = False
   \<and> n_disconnects (fst (Close exRunning)) = []
   \<and> snd (Close (fst (Close exRunning))) = False
   \<and> n_disconnects (fst (Close (fst (Close exRunning)))) = []
   \<and> map_option snd (receiving exEnv exRunning (Frame [0, 0, 0])) = Some Blocked
   \<and> map_option (n_disconnects \<circ> fst) (receiving exEnv exRunning (Frame [0, 0, 0])) = Some []
   \<and> map_option (c_closeq \<circ> fst) (receiving exEnv exRunning (Frame [0, 0, 0])) = Some True"
proof -
  have n: "n_disconnects exNode = []" by (simp add: exNode_def)
  have o: "\<not> c_closeo exRunning" and t: "length (c_tasks exRunning) < c_await exRunning"
    by (simp_all add: exRunning_def run_counter)
  have q: "c_closeq (fst (fatality exRunning a)) = True" for a
    using o t by (simp add: fatality_def close_def Wait_def Let_def delConnection_conn)
  have r: "run (newConnection exNode 1) = exRunning" by (simp add: exRunning_def)
  have c: "snd (Close exRunning) = False"
    "n_disconnects (fst (Close exRunning)) = []"
    "snd (Close (fst (Close exRunning))) = False"
    "fst (Close (fst (Close exRunning))) = fst (Close exRunning)"
    using Close_after_run [of exNode 1] n unfolding r by simp_all
  have f: "receiving exEnv exRunning (Frame [0, 0, 0]) =
      Some (fst (fatality exRunning ''invalid messege received: samll size''), Blocked)"
    using fatality_blocks(1) [OF o t] by (simp add: receiving_def)
  have m: "n_disconnects (fst (fatality exRunning a)) = []" for a
    using fatality_blocks(2) [OF o t, of a] n by (simp add: exRunning_def run_def newConnection_def)
  show ?thesis using c by (simp add: f m q)
qed

end
